theory Spec2Isabelle
  imports Complex_Main
begin

section \<open>Expression trees\<close>

text \<open>
  A \<open>Node\<close> of the expression tree carries an optional operator symbol, an optional
  constant and two optional children. The constructor calls of the source are
  \<^verbatim>\<open>Node(op=...)\<close> and \<^verbatim>\<open>Node(value=...)\<close>; a field that is not given is
  \<^verbatim>\<open>None\<close>. A variable is a childless node whose symbol is the variable's name.
  Python floats are modelled as reals: the mutation code only compares constants
  with 0 and 1.
\<close>

datatype Node = Node (op: "string option") (nvalue: "real option")
  (left: "Node option") (right: "Node option")

text \<open>
  Modelled from the spec: \<^verbatim>\<open>Node.copy\<close> (core/tree.py is not part of the sources),
  a deep structural copy that yields a fully independent tree.
\<close>

fun copy :: "Node \<Rightarrow> Node" where
  "copy (Node opr v l r) = Node opr v (map_option copy l) (map_option copy r)"

text \<open>The largest depth of a node of the tree, when its root lies at depth \<open>d\<close>.\<close>

fun deepest :: "int \<Rightarrow> Node \<Rightarrow> int" where
  "deepest d (Node opr v l r) =
     max d (max (case l of None \<Rightarrow> d | Some a \<Rightarrow> deepest (d + 1) a)
                (case r of None \<Rightarrow> d | Some b \<Rightarrow> deepest (d + 1) b))"

section \<open>The random source\<close>

text \<open>
  The source draws from Python's global \<^verbatim>\<open>random\<close> module. The generator is made
  explicit: a state of any type \<open>'s\<close> and one oracle per primitive, each returning
  its draw and the next state. Nothing is assumed about the oracles, so a theorem
  about every random source and every state is a theorem about every sequence of
  draws.
\<close>

record 's random_source =
  rnd_random :: "'s \<Rightarrow> real \<times> 's"
  rnd_below :: "nat \<Rightarrow> 's \<Rightarrow> nat \<times> 's"
  rnd_uniform :: "real \<Rightarrow> real \<Rightarrow> 's \<Rightarrow> real \<times> 's"
  rnd_gauss :: "real \<Rightarrow> real \<Rightarrow> 's \<Rightarrow> real \<times> 's"

datatype error = IndexError | ValueError

text \<open>
  \<^verbatim>\<open>random.randint(a, b)\<close>: an integer of the inclusive range \<open>[a, b]\<close>; the
  library raises \<^verbatim>\<open>ValueError\<close> on an empty range. The oracle's number is
  reduced into the range.
\<close>

definition randint :: "'s random_source \<Rightarrow> int \<Rightarrow> int \<Rightarrow> 's \<Rightarrow> error + (int \<times> 's)" where
  "randint R a b s =
     (if b < a then Inl ValueError
      else case rnd_below R (nat (b - a + 1)) s of
             (k, s') \<Rightarrow> Inr (a + int (k mod nat (b - a + 1)), s'))"

text \<open>
  \<^verbatim>\<open>random.choices(population, weights=weights)[0]\<close> with both lists taken from
  the same dictionary: \<^verbatim>\<open>IndexError\<close> on an empty dictionary, \<^verbatim>\<open>ValueError\<close>
  when the weights do not sum to a positive number, otherwise one element of the
  population. Which element a weight favours is left to the oracle.
\<close>

definition choices :: "'s random_source \<Rightarrow> 'a list \<Rightarrow> real list \<Rightarrow> 's \<Rightarrow> error + ('a \<times> 's)" where
  "choices R population weights s =
     (if population = [] then Inl IndexError
      else if sum_list weights \<le> 0 then Inl ValueError
      else case rnd_below R (length population) s of
             (k, s') \<Rightarrow> Inr (population ! (k mod length population), s'))"

section \<open>Configuration and operator registry\<close>

text \<open>
  A weight dictionary \<^verbatim>\<open>Dict[str, float]\<close> in insertion order; \<open>dict_keys\<close> and
  \<open>dict_values\<close> are Python's \<^verbatim>\<open>list(d.keys())\<close> and \<^verbatim>\<open>list(d.values())\<close>.
\<close>

type_synonym weights = "(string \<times> real) list"

definition dict_keys :: "('k \<times> 'v) list \<Rightarrow> 'k list" where
  "dict_keys d = map fst d"

definition dict_values :: "('k \<times> 'v) list \<Rightarrow> 'v list" where
  "dict_values d = map snd d"

text \<open>
  Modelled from the spec: the enumeration \<^verbatim>\<open>MutationType\<close> (config/settings.py is
  not part of the sources). The mutation code names \<open>SUBTREE\<close>, \<open>OPERATOR\<close> and
  \<open>SIMPLIFY\<close>; the spec's weight table has a fourth entry for constant perturbation.
\<close>

datatype MutationType = SUBTREE | OPERATOR | CONSTANT_PERTURB | SIMPLIFY

text \<open>The fields of \<^verbatim>\<open>MutationConfig\<close> and \<^verbatim>\<open>TreeConfig\<close> that the code reads.\<close>

record MutationConfig =
  MUTATION_WEIGHTS :: "(MutationType \<times> real) list"
  SUBTREE_DEPTH_RANGE :: "int \<times> int"
  VALUE_STEP_FACTOR :: real
  MUTATION_VARIABLE_PROBABILITY :: real

record TreeConfig =
  ROOT_VARIABLE_SIDE_PROBABILITY :: real
  VARIABLE_PROBABILITY :: real
  OPERATOR_PROBABILITY :: real
  UNARY_OPERATOR_PROBABILITY :: real
  CONSTANT_RANGE :: "real \<times> real"

text \<open>
  What the module imports from files that are not part of the sources: the two
  operator registries (their symbols, in iteration order), the naming of variables,
  and the default configurations \<^verbatim>\<open>TreeConfig()\<close> and \<^verbatim>\<open>MutationConfig()\<close>, which
  Python evaluates once, when the functions are defined. They are parameters of the
  model.
\<close>

record environment =
  UNARY_OPS :: "string list"
  BINARY_OPS :: "string list"
  get_var_name :: "int \<Rightarrow> string"
  default_TreeConfig :: TreeConfig
  default_MutationConfig :: MutationConfig

text \<open>
  \<^verbatim>\<open>{op: 1.0 / len(OPS) for op in OPS}\<close>, the weights used when the caller passes
  \<^verbatim>\<open>None\<close>. On an empty registry the comprehension evaluates no division.
\<close>

definition default_weights :: "string list \<Rightarrow> weights" where
  "default_weights ops = map (\<lambda>opr. (opr, 1 / real (length ops))) ops"

text \<open>
  \<^verbatim>\<open>if weights is None: weights = {op: 1.0 / len(OPS) for op in OPS}\<close>.
\<close>

definition resolve_weights :: "weights option \<Rightarrow> string list \<Rightarrow> weights" where
  "resolve_weights w ops = (case w of None \<Rightarrow> default_weights ops | Some d \<Rightarrow> d)"

section \<open>Random tree generation\<close>

text \<open>\<^verbatim>\<open>Node(op=get_var_name(var_idx))\<close> and \<^verbatim>\<open>Node(value=v)\<close>.\<close>

definition var_node :: "environment \<Rightarrow> int \<Rightarrow> Node" where
  "var_node E i = Node (Some (get_var_name E i)) None None None"

definition const_node :: "real \<Rightarrow> Node" where
  "const_node v = Node None (Some v) None None"

text \<open>
  The terminal block of \<^verbatim>\<open>create_random_tree\<close>. The source writes it twice, at
  the depth floor with the constant range \<open>(-5, 5)\<close> and at intermediate depths with
  \<^verbatim>\<open>config.CONSTANT_RANGE\<close>; the range is the parameter here.
\<close>

definition terminal ::
  "environment \<Rightarrow> 's random_source \<Rightarrow> TreeConfig \<Rightarrow> real \<times> real \<Rightarrow> int \<Rightarrow> 's \<Rightarrow> error + (Node \<times> 's)" where
  "terminal E R config const_range n_variables s =
     (case rnd_random R s of
        (u, s1) \<Rightarrow>
          if u < VARIABLE_PROBABILITY config then
            (case randint R 1 n_variables s1 of
               Inl e \<Rightarrow> Inl e
             | Inr (var_idx, s2) \<Rightarrow> Inr (var_node E var_idx, s2))
          else
            (case rnd_uniform R (fst const_range) (snd const_range) s1 of
               (v, s2) \<Rightarrow> Inr (const_node v, s2)))"

text \<open>
  \<^verbatim>\<open>create_random_tree\<close>. The recursive calls of the source pass the resolved
  weights and no configuration, so they run under the default \<^verbatim>\<open>TreeConfig()\<close>.
\<close>

function create_random_tree ::
  "environment \<Rightarrow> 's random_source \<Rightarrow> TreeConfig \<Rightarrow> int \<Rightarrow> int \<Rightarrow> int \<Rightarrow>
   weights option \<Rightarrow> weights option \<Rightarrow> 's \<Rightarrow> error + (Node \<times> 's)" where
  "create_random_tree E R config depth max_depth n_variables unary_weights binary_weights s =
     (let uw = resolve_weights unary_weights (UNARY_OPS E);
          bw = resolve_weights binary_weights (BINARY_OPS E)
      in
      if depth = 0 then
        (case choices R (dict_keys bw) (dict_values bw) s of
           Inl e \<Rightarrow> Inl e
         | Inr (opr, s1) \<Rightarrow>
            (case randint R 0 n_variables s1 of
               Inl e \<Rightarrow> Inl e
             | Inr (var_idx, s2) \<Rightarrow>
                (case rnd_random R s2 of
                   (u, s3) \<Rightarrow>
                     if u < ROOT_VARIABLE_SIDE_PROBABILITY config then
                       (case create_random_tree E R (default_TreeConfig E) (depth + 1) max_depth
                               n_variables (Some uw) (Some bw) s3 of
                          Inl e \<Rightarrow> Inl e
                        | Inr (b, s4) \<Rightarrow>
                            Inr (Node (Some opr) None (Some (var_node E var_idx)) (Some b), s4))
                     else
                       (case create_random_tree E R (default_TreeConfig E) (depth + 1) max_depth
                               n_variables (Some uw) (Some bw) s3 of
                          Inl e \<Rightarrow> Inl e
                        | Inr (a, s4) \<Rightarrow>
                            Inr (Node (Some opr) None (Some a) (Some (var_node E var_idx)), s4)))))
      else if depth \<ge> max_depth then
        terminal E R config (-5, 5) n_variables s
      else
        (case rnd_random R s of
           (u, s1) \<Rightarrow>
             if u < OPERATOR_PROBABILITY config then
               (case rnd_random R s1 of
                  (u', s2) \<Rightarrow>
                    if u' < UNARY_OPERATOR_PROBABILITY config then
                      (case choices R (dict_keys uw) (dict_values uw) s2 of
                         Inl e \<Rightarrow> Inl e
                       | Inr (opr, s3) \<Rightarrow>
                          (case create_random_tree E R (default_TreeConfig E) (depth + 1) max_depth
                                  n_variables (Some uw) (Some bw) s3 of
                             Inl e \<Rightarrow> Inl e
                           | Inr (a, s4) \<Rightarrow> Inr (Node (Some opr) None (Some a) None, s4)))
                    else
                      (case choices R (dict_keys bw) (dict_values bw) s2 of
                         Inl e \<Rightarrow> Inl e
                       | Inr (opr, s3) \<Rightarrow>
                          (case create_random_tree E R (default_TreeConfig E) (depth + 1) max_depth
                                  n_variables (Some uw) (Some bw) s3 of
                             Inl e \<Rightarrow> Inl e
                           | Inr (a, s4) \<Rightarrow>
                              (case create_random_tree E R (default_TreeConfig E) (depth + 1)
                                      max_depth n_variables (Some uw) (Some bw) s4 of
                                 Inl e \<Rightarrow> Inl e
                               | Inr (b, s5) \<Rightarrow>
                                   Inr (Node (Some opr) None (Some a) (Some b), s5)))))
             else terminal E R config (CONSTANT_RANGE config) n_variables s1))"
  by pat_completeness auto
termination
  by (relation "measure (\<lambda>(E, R, config, depth, max_depth, rest).
        2 * nat (max_depth - depth) + (if depth = 0 then 1 else 0))") auto

declare create_random_tree.simps [simp del]

section \<open>Mutation\<close>

text \<open>
  \<^verbatim>\<open>node.op in UNARY_OPS\<close>: a node without a symbol is in no registry.
\<close>

definition op_in :: "string option \<Rightarrow> string list \<Rightarrow> bool" where
  "op_in opr registry = (case opr of None \<Rightarrow> False | Some name \<Rightarrow> name \<in> set registry)"

text \<open>
  \<^verbatim>\<open>node.left and node.left.value == c\<close>: the child is present and its constant
  equals \<open>c\<close> (a child without a constant compares unequal).
\<close>

definition child_value_is :: "Node option \<Rightarrow> real \<Rightarrow> bool" where
  "child_value_is child c = (case child of None \<Rightarrow> False | Some n \<Rightarrow> nvalue n = Some c)"

text \<open>
  The first half of \<^verbatim>\<open>mutate\<close> (the mutation drawn at the node itself) either
  returns a tree at once, or falls through to the recursion into the children with
  the node's symbol and constant possibly reassigned; the children are not touched
  by it.
\<close>

datatype 's step = Return Node 's | Continue "string option" "real option" 's

definition mutate_node ::
  "environment \<Rightarrow> 's random_source \<Rightarrow> MutationConfig \<Rightarrow> Node \<Rightarrow> real \<Rightarrow> int \<Rightarrow> int \<Rightarrow>
   weights \<Rightarrow> weights \<Rightarrow> 's \<Rightarrow> error + 's step" where
  "mutate_node E R config node mutation_prob max_depth n_variables unary_weights binary_weights s =
     (case rnd_random R s of
        (u, s1) \<Rightarrow>
          if u < mutation_prob then
            (case choices R (dict_keys (MUTATION_WEIGHTS config))
                    (dict_values (MUTATION_WEIGHTS config)) s1 of
               Inl e \<Rightarrow> Inl e
             | Inr (mutation_type, s2) \<Rightarrow>
                 if mutation_type = SUBTREE then
                   (case randint R (fst (SUBTREE_DEPTH_RANGE config))
                           (snd (SUBTREE_DEPTH_RANGE config)) s2 of
                      Inl e \<Rightarrow> Inl e
                    | Inr (depth, s3) \<Rightarrow>
                       (case create_random_tree E R (default_TreeConfig E) depth max_depth
                               n_variables (Some unary_weights) (Some binary_weights) s3 of
                          Inl e \<Rightarrow> Inl e
                        | Inr (t, s4) \<Rightarrow> Inr (Return t s4)))
                 else if mutation_type = OPERATOR then
                   (if op_in (op node) (UNARY_OPS E) then
                      (case choices R (dict_keys unary_weights) (dict_values unary_weights) s2 of
                         Inl e \<Rightarrow> Inl e
                       | Inr (opr, s3) \<Rightarrow> Inr (Continue (Some opr) (nvalue node) s3))
                    else if op_in (op node) (BINARY_OPS E) then
                      (case choices R (dict_keys binary_weights) (dict_values binary_weights) s2 of
                         Inl e \<Rightarrow> Inl e
                       | Inr (opr, s3) \<Rightarrow> Inr (Continue (Some opr) (nvalue node) s3))
                    else Inr (Continue (op node) (nvalue node) s2))
                 else if mutation_type = OPERATOR then
                   (case nvalue node of
                      None \<Rightarrow> Inr (Continue (op node) (nvalue node) s2)
                    | Some v \<Rightarrow>
                       (case rnd_gauss R 0
                               (if v \<noteq> 0 then \<bar>v\<bar> * VALUE_STEP_FACTOR config
                                else VALUE_STEP_FACTOR config) s2 of
                          (g, s3) \<Rightarrow> Inr (Continue (op node) (Some (v + g)) s3)))
                 else if mutation_type = SIMPLIFY then
                   (if op node = Some ''*'' then
                      (if child_value_is (left node) 0 \<or> child_value_is (right node) 0 then
                         Inr (Return (const_node 0) s2)
                       else if child_value_is (left node) 1 then
                         (case right node of
                            Some b \<Rightarrow> Inr (Return (copy b) s2)
                          | None \<Rightarrow> Inr (Return node s2))
                       else if child_value_is (right node) 1 then
                         (case left node of
                            Some a \<Rightarrow> Inr (Return (copy a) s2)
                          | None \<Rightarrow> Inr (Return node s2))
                       else Inr (Continue (op node) (nvalue node) s2))
                    else Inr (Continue (op node) (nvalue node) s2))
                 else Inr (Continue (op node) (nvalue node) s2))
          else Inr (Continue (op node) (nvalue node) s1))"

text \<open>
  \<^verbatim>\<open>mutate\<close>. The recursive calls pass no configuration, so the children are
  mutated under the default \<^verbatim>\<open>MutationConfig()\<close>, with the probability scaled by
  the \<^verbatim>\<open>VARIABLE_PROBABILITY\<close> of the configuration of the current call.
\<close>

fun mutate ::
  "environment \<Rightarrow> 's random_source \<Rightarrow> MutationConfig \<Rightarrow> Node \<Rightarrow> real \<Rightarrow> int \<Rightarrow> int \<Rightarrow>
   weights \<Rightarrow> weights \<Rightarrow> 's \<Rightarrow> error + (Node \<times> 's)" where
  "mutate E R config (Node opr v l r) mutation_prob max_depth n_variables unary_weights
     binary_weights s =
     (case mutate_node E R config (Node opr v l r) mutation_prob max_depth n_variables
             unary_weights binary_weights s of
        Inl e \<Rightarrow> Inl e
      | Inr (Return t s') \<Rightarrow> Inr (t, s')
      | Inr (Continue opr' v' s1) \<Rightarrow>
         (case (case l of
                  None \<Rightarrow> Inr (None, s1)
                | Some a \<Rightarrow>
                   (case mutate E R (default_MutationConfig E) a
                           (mutation_prob * MUTATION_VARIABLE_PROBABILITY config) max_depth
                           n_variables unary_weights binary_weights s1 of
                      Inl e \<Rightarrow> Inl e
                    | Inr (a', s2) \<Rightarrow> Inr (Some a', s2))) of
            Inl e \<Rightarrow> Inl e
          | Inr (l', s2) \<Rightarrow>
             (case (case r of
                      None \<Rightarrow> Inr (None, s2)
                    | Some b \<Rightarrow>
                       (case mutate E R (default_MutationConfig E) b
                               (mutation_prob * MUTATION_VARIABLE_PROBABILITY config) max_depth
                               n_variables unary_weights binary_weights s2 of
                          Inl e \<Rightarrow> Inl e
                        | Inr (b', s3) \<Rightarrow> Inr (Some b', s3))) of
                Inl e \<Rightarrow> Inl e
              | Inr (r', s3) \<Rightarrow> Inr (Node opr' v' l' r', s3))))"

declare mutate.simps [simp del]

section \<open>Properties of trees\<close>

text \<open>A variable leaf whose index lies in the inclusive range \<open>[lo, hi]\<close>.\<close>

definition is_var_leaf :: "environment \<Rightarrow> int \<Rightarrow> int \<Rightarrow> Node \<Rightarrow> bool" where
  "is_var_leaf E lo hi t = (\<exists>i\<in>set [lo..hi]. t = var_node E i)"

text \<open>The tree contains a variable leaf with an index in \<open>[lo, hi]\<close>.\<close>

fun has_variable :: "environment \<Rightarrow> int \<Rightarrow> int \<Rightarrow> Node \<Rightarrow> bool" where
  "has_variable E lo hi (Node opr v l r) =
     (is_var_leaf E lo hi (Node opr v l r)
      \<or> (case l of None \<Rightarrow> False | Some a \<Rightarrow> has_variable E lo hi a)
      \<or> (case r of None \<Rightarrow> False | Some b \<Rightarrow> has_variable E lo hi b))"


text \<open>
  The arity invariant of the data model: a node whose symbol is a binary operator has
  both children, a node whose symbol is a unary operator has its left child and no
  right child.
\<close>

fun arity_ok :: "environment \<Rightarrow> Node \<Rightarrow> bool" where
  "arity_ok E (Node opr v l r) =
     ((op_in opr (BINARY_OPS E) \<longrightarrow> l \<noteq> None \<and> r \<noteq> None)
      \<and> (op_in opr (UNARY_OPS E) \<longrightarrow> l \<noteq> None \<and> r = None)
      \<and> (case l of None \<Rightarrow> True | Some a \<Rightarrow> arity_ok E a)
      \<and> (case r of None \<Rightarrow> True | Some b \<Rightarrow> arity_ok E b))"

text \<open>
  The payload invariant of the data model: exactly one of symbol and constant is set,
  and a node that carries a constant has no children.
\<close>

fun payload_ok :: "Node \<Rightarrow> bool" where
  "payload_ok (Node opr v l r) =
     ((opr = None \<longleftrightarrow> v \<noteq> None) \<and> (v \<noteq> None \<longrightarrow> l = None \<and> r = None)
      \<and> (case l of None \<Rightarrow> True | Some a \<Rightarrow> payload_ok a)
      \<and> (case r of None \<Rightarrow> True | Some b \<Rightarrow> payload_ok b))"

text \<open>
  The shape of the trees that the generator builds at depth \<open>d\<close> under the limit \<open>m\<close>,
  with unary symbols \<open>uk\<close>, binary symbols \<open>bk\<close> and \<open>n\<close> variables: the invariant of
  the recursion of \<open>create_random_tree\<close>.
\<close>

fun generated ::
  "environment \<Rightarrow> string list \<Rightarrow> string list \<Rightarrow> int \<Rightarrow> int \<Rightarrow> int \<Rightarrow> Node \<Rightarrow> bool" where
  "generated E uk bk n m d (Node opr v l r) =
     (case l of
        None \<Rightarrow>
          r = None \<and> d \<noteq> 0 \<and>
          ((opr = None \<and> v \<noteq> None) \<or> (v = None \<and> is_var_leaf E 1 n (Node opr v l r)))
      | Some a \<Rightarrow>
         (case r of
            None \<Rightarrow> d \<noteq> 0 \<and> d < m \<and> v = None \<and> op_in opr uk \<and> generated E uk bk n m (d + 1) a
          | Some b \<Rightarrow>
              v = None \<and> op_in opr bk \<and>
              (if d = 0 then
                 (is_var_leaf E 0 n a \<and> generated E uk bk n m (d + 1) b)
                 \<or> (generated E uk bk n m (d + 1) a \<and> is_var_leaf E 0 n b)
               else d < m \<and> generated E uk bk n m (d + 1) a \<and> generated E uk bk n m (d + 1) b)))"

section \<open>Scoring a tree against data\<close>

text \<open>
  The metrics are computed by \<^verbatim>\<open>plot_prediction_analysis\<close> (the operation that the
  specification calls \<^verbatim>\<open>evaluate_and_score\<close>), on numpy arrays of \<^verbatim>\<open>float64\<close>.
  A \<^verbatim>\<open>float64\<close> is a number, an infinity or NaN. The two zeros are not told apart:
  the only divisor of the code is a sum of squares, which is never the negative
  zero.
\<close>

datatype float64 = Finite real | PosInf | NegInf | NaN

text \<open>
  The arithmetic of numpy is a parameter of the model: \<open>fl_round\<close> is the rounding of
  an exact result to \<^verbatim>\<open>float64\<close> (to a neighbouring \<^verbatim>\<open>float64\<close>, to zero on
  underflow, to an infinity on overflow), and \<open>np_sum\<close> is \<^verbatim>\<open>np.sum\<close>, which adds
  with rounding in an order that numpy chooses. Nothing is assumed about either, so
  a theorem about every arithmetic is a theorem about the one of numpy.
\<close>

record numpy =
  fl_round :: "real \<Rightarrow> float64"
  np_sum :: "float64 list \<Rightarrow> float64"

text \<open>
  The operations on two \<^verbatim>\<open>float64\<close> scalars: the exact result, rounded, with the
  IEEE 754 results for infinities and NaN. A zero divisor raises nothing (numpy
  prints a warning) and yields an infinity, or NaN for \<open>0 / 0\<close>.
\<close>

fun fl_add :: "numpy \<Rightarrow> float64 \<Rightarrow> float64 \<Rightarrow> float64" where
  "fl_add np (Finite a) (Finite b) = fl_round np (a + b)"
| "fl_add np (Finite a) PosInf = PosInf"
| "fl_add np (Finite a) NegInf = NegInf"
| "fl_add np PosInf (Finite b) = PosInf"
| "fl_add np PosInf PosInf = PosInf"
| "fl_add np NegInf (Finite b) = NegInf"
| "fl_add np NegInf NegInf = NegInf"
| "fl_add np a b = NaN"

fun fl_sub :: "numpy \<Rightarrow> float64 \<Rightarrow> float64 \<Rightarrow> float64" where
  "fl_sub np (Finite a) (Finite b) = fl_round np (a - b)"
| "fl_sub np (Finite a) PosInf = NegInf"
| "fl_sub np (Finite a) NegInf = PosInf"
| "fl_sub np PosInf (Finite b) = PosInf"
| "fl_sub np PosInf NegInf = PosInf"
| "fl_sub np NegInf (Finite b) = NegInf"
| "fl_sub np NegInf PosInf = NegInf"
| "fl_sub np a b = NaN"

fun fl_square :: "numpy \<Rightarrow> float64 \<Rightarrow> float64" where
  "fl_square np (Finite a) = fl_round np (a * a)"
| "fl_square np PosInf = PosInf"
| "fl_square np NegInf = PosInf"
| "fl_square np NaN = NaN"

fun fl_div :: "numpy \<Rightarrow> float64 \<Rightarrow> float64 \<Rightarrow> float64" where
  "fl_div np (Finite a) (Finite b) =
     (if b \<noteq> 0 then fl_round np (a / b)
      else if 0 < a then PosInf else if a < 0 then NegInf else NaN)"
| "fl_div np (Finite a) PosInf = Finite 0"
| "fl_div np (Finite a) NegInf = Finite 0"
| "fl_div np PosInf (Finite b) = (if b < 0 then NegInf else PosInf)"
| "fl_div np NegInf (Finite b) = (if b < 0 then PosInf else NegInf)"
| "fl_div np a b = NaN"

text \<open>
  \<^verbatim>\<open>np.mean\<close>: the sum divided by the number of entries (NaN for an empty
  array, with a warning).
\<close>

definition np_mean :: "numpy \<Rightarrow> float64 list \<Rightarrow> float64" where
  "np_mean np a = fl_div np (np_sum np a) (Finite (real (length a)))"

text \<open>
  \<^verbatim>\<open>a - b\<close> for one-dimensional arrays: entry by entry when the lengths agree, an
  array of length one is broadcast, any other pair of lengths raises
  \<^verbatim>\<open>ValueError\<close>.
\<close>

definition np_subtract :: "numpy \<Rightarrow> float64 list \<Rightarrow> float64 list \<Rightarrow> error + float64 list" where
  "np_subtract np a b =
     (if length a = length b then Inr (map2 (fl_sub np) a b)
      else if length a = 1 then Inr (map (\<lambda>v. fl_sub np (hd a) v) b)
      else if length b = 1 then Inr (map (\<lambda>v. fl_sub np v (hd b)) a)
      else Inl ValueError)"

text \<open>\<^verbatim>\<open>a ** 2\<close>, entry by entry.\<close>

definition np_square :: "numpy \<Rightarrow> float64 list \<Rightarrow> float64 list" where
  "np_square np a = map (fl_square np) a"

text \<open>\<^verbatim>\<open>y - np.mean(y)\<close>: the scalar mean is subtracted from every entry.\<close>

definition centred :: "numpy \<Rightarrow> float64 list \<Rightarrow> float64 list" where
  "centred np y = map (\<lambda>v. fl_sub np v (np_mean np y)) y"

text \<open>
  \<^verbatim>\<open>plot_prediction_analysis\<close>. The pair \<open>(mse, r2)\<close> is computed first. Of the
  drawing statements that follow, two can raise: \<^verbatim>\<open>ax.scatter(y, y_pred)\<close> raises
  \<^verbatim>\<open>ValueError\<close> when the two arrays differ in size, and \<^verbatim>\<open>np.min(y)\<close> raises
  \<^verbatim>\<open>ValueError\<close> on an empty array; then the pair is returned.
  \<^verbatim>\<open>Node.evaluate\<close> is not part of the sources and is the parameter \<open>evaluate\<close>.
\<close>

definition plot_prediction_analysis ::
  "numpy \<Rightarrow> (Node \<Rightarrow> 'x \<Rightarrow> float64 list) \<Rightarrow> Node \<Rightarrow> 'x \<Rightarrow> float64 list \<Rightarrow>
   error + (float64 \<times> float64)" where
  "plot_prediction_analysis np evaluate expression x y =
     (let y_pred = evaluate expression x in
      case np_subtract np y y_pred of
        Inl e \<Rightarrow> Inl e
      | Inr residual \<Rightarrow>
          (let mse = np_mean np (np_square np residual);
               r2 = fl_sub np (Finite 1)
                      (fl_div np (np_sum np (np_square np residual))
                                 (np_sum np (np_square np (centred np y))))
           in
           if length y \<noteq> length y_pred then Inl ValueError
           else if y = [] then Inl ValueError
           else Inr (mse, r2)))"

section \<open>A scripted random source and a small registry\<close>

text \<open>
  A random source that replays a list of numbers: each primitive consumes the head
  of the list (\<^verbatim>\<open>random()\<close> reads it in tenths) and an exhausted list yields the
  lower end of the range. It lets a concrete run of the code be evaluated.
\<close>

definition scripted :: "nat list random_source" where
  "scripted =
     \<lparr>rnd_random = (\<lambda>s. case s of [] \<Rightarrow> (0, []) | k # ks \<Rightarrow> (real k / 10, ks)),
      rnd_below = (\<lambda>n s. case s of [] \<Rightarrow> (0, []) | k # ks \<Rightarrow> (k, ks)),
      rnd_uniform = (\<lambda>a b s. case s of [] \<Rightarrow> (a, []) | k # ks \<Rightarrow> (a + (b - a) * real k / 10, ks)),
      rnd_gauss = (\<lambda>m sd s. case s of [] \<Rightarrow> (m, []) | k # ks \<Rightarrow> (m + sd * real k, ks))\<rparr>"

definition example_tree_config :: TreeConfig where
  "example_tree_config =
     \<lparr>ROOT_VARIABLE_SIDE_PROBABILITY = 1 / 2, VARIABLE_PROBABILITY = 7 / 10,
      OPERATOR_PROBABILITY = 7 / 10, UNARY_OPERATOR_PROBABILITY = 3 / 10,
      CONSTANT_RANGE = (-1, 1)\<rparr>"

definition example_mutation_config :: MutationConfig where
  "example_mutation_config =
     \<lparr>MUTATION_WEIGHTS = [(SUBTREE, 4 / 10), (OPERATOR, 3 / 10), (CONSTANT_PERTURB, 2 / 10),
                          (SIMPLIFY, 1 / 10)],
      SUBTREE_DEPTH_RANGE = (1, 3), VALUE_STEP_FACTOR = 1 / 10,
      MUTATION_VARIABLE_PROBABILITY = 7 / 10\<rparr>"

definition example_var_name :: "int \<Rightarrow> string" where
  "example_var_name i =
     (if i = 0 then ''x0'' else if i = 1 then ''x1'' else if i = 2 then ''x2'' else ''xn'')"

definition example_env :: environment where
  "example_env =
     \<lparr>UNARY_OPS = [''sin'', ''exp''], BINARY_OPS = [''+'', ''*''],
      get_var_name = example_var_name,
      default_TreeConfig = example_tree_config,
      default_MutationConfig = example_mutation_config\<rparr>"

definition example_unary_weights :: weights where
  "example_unary_weights = [(''sin'', 1), (''exp'', 1)]"

definition example_binary_weights :: weights where
  "example_binary_weights = [(''+'', 2), (''*'', 1)]"

text \<open>
  A second random source, which replays a list of numbers for \<^verbatim>\<open>random()\<close> and a
  list of integers for the integer draws; \<^verbatim>\<open>uniform\<close> yields the lower end of its
  range and \<^verbatim>\<open>gauss\<close> its mean.
\<close>

definition replay :: "(real list \<times> nat list) random_source" where
  "replay =
     \<lparr>rnd_random = (\<lambda>(us, ks). case us of [] \<Rightarrow> (0, ([], ks)) | u # us' \<Rightarrow> (u, (us', ks))),
      rnd_below = (\<lambda>n (us, ks). case ks of [] \<Rightarrow> (0, (us, [])) | k # ks' \<Rightarrow> (k, (us, ks'))),
      rnd_uniform = (\<lambda>a b s. (a, s)),
      rnd_gauss = (\<lambda>m sd s. (m, s))\<rparr>"

text \<open>
  An arithmetic for evaluating examples: no rounding, and sums taken from left to
  right. \<^verbatim>\<open>float64\<close> computes the same wherever every intermediate result is a
  \<^verbatim>\<open>float64\<close>, as on the small integers of the examples.
\<close>

definition exact_arithmetic :: numpy where
  "exact_arithmetic =
     \<lparr>fl_round = Finite,
      np_sum = foldl (fl_add \<lparr>fl_round = Finite, np_sum = (\<lambda>a. NaN)\<rparr>) (Finite 0)\<rparr>"

text \<open>
  Modelled from the spec: \<^verbatim>\<open>Node.evaluate\<close> (core/tree.py is not part of the
  sources), for the leaves of the examples: a constant is broadcast across the rows
  and the variable \<open>x0\<close> reads the first column.
\<close>

definition example_evaluate :: "Node \<Rightarrow> float64 list list \<Rightarrow> float64 list" where
  "example_evaluate t x =
     (case nvalue t of
        Some c \<Rightarrow> map (\<lambda>row. Finite c) x
      | None \<Rightarrow>
          if op t = Some ''x0'' then map (\<lambda>row. case row of [] \<Rightarrow> NaN | c # cs \<Rightarrow> c) x
          else [])"

text \<open>A registry whose variable names collide with a unary operator symbol.\<close>

definition clashing_env :: environment where
  "clashing_env = example_env\<lparr>get_var_name := (\<lambda>i. ''exp'')\<rparr>"

section \<open>The draws stay in range; the shape of generated trees\<close>

lemma randint_range:
  assumes "randint R a b s = Inr (i, s')"
  shows "a \<le> i \<and> i \<le> b"
proof -
  from assms have ab: "a \<le> b" by (auto simp: randint_def split: if_splits)
  obtain k where i: "i = a + int (k mod nat (b - a + 1))"
    using assms ab by (auto simp: randint_def split: prod.splits)
  have "0 < nat (b - a + 1)" using ab by simp
  then have "k mod nat (b - a + 1) < nat (b - a + 1)" by (rule mod_less_divisor)
  then have "int (k mod nat (b - a + 1)) < b - a + 1" using ab by linarith
  with i show ?thesis by simp
qed

lemma choices_member:
  assumes "choices R population weights s = Inr (x, s')"
  shows "x \<in> set population"
  using assms by (auto simp: choices_def split: if_splits prod.splits)

lemma randint_var_leaf:
  "randint R a b s = Inr (i, s') \<Longrightarrow> is_var_leaf E a b (var_node E i)"
  using randint_range[of R a b s i s'] by (auto simp: is_var_leaf_def)

lemma terminal_shape:
  assumes "terminal E R config cr n s = Inr (t, s')"
  shows "(\<exists>c. t = const_node c) \<or> is_var_leaf E 1 n t"
  using assms
  by (auto simp: terminal_def randint_var_leaf split: prod.splits if_splits sum.splits)

lemma generated_terminal:
  assumes "terminal E R config cr n s = Inr (t, s')" and "d \<noteq> 0"
  shows "generated E uk bk n m d t"
proof -
  from terminal_shape[OF assms(1)] show ?thesis
  proof
    assume "\<exists>c. t = const_node c"
    then show ?thesis using assms(2) by (auto simp: const_node_def)
  next
    assume v: "is_var_leaf E 1 n t"
    then obtain i where "t = var_node E i" by (auto simp: is_var_leaf_def)
    then have "t = Node (Some (get_var_name E i)) None None None" by (simp add: var_node_def)
    with v assms(2) show ?thesis by simp
  qed
qed


lemma resolve_Some [simp]: "resolve_weights (Some w) ops = w"
  by (simp add: resolve_weights_def)

lemma generated_create_random_tree:
  "create_random_tree E R config depth m n uwo bwo s = Inr (t, s') \<Longrightarrow>
   generated E (dict_keys (resolve_weights uwo (UNARY_OPS E)))
     (dict_keys (resolve_weights bwo (BINARY_OPS E))) n m depth t"
proof (induction E R config depth m n uwo bwo s arbitrary: t s' rule: create_random_tree.induct)
  case (1 E R config depth m n uwo bwo s)
  show ?case
    using "1.prems" "1.IH"
    apply (subst (asm) create_random_tree.simps)
    apply (auto simp: Let_def op_in_def generated_terminal randint_var_leaf
        split: if_splits sum.splits prod.splits dest: choices_member)
    done
qed


lemma deepest_ge: "d \<le> deepest d t"
  by (cases t) simp

lemma is_var_leaf_deepest: "is_var_leaf E lo hi t \<Longrightarrow> deepest d t = d"
  by (auto simp: is_var_leaf_def var_node_def)

lemma generated_deepest:
  "generated E uk bk n m d t \<Longrightarrow> deepest d t \<le> max m (max d 1)"
proof (induction t arbitrary: d)
  case (Node opr v l r)
  show ?case
  proof (cases l)
    case None
    with Node.prems show ?thesis by simp
  next
    case (Some a)
    note l = this
    show ?thesis
    proof (cases r)
      case None
      with l Node.prems have g: "generated E uk bk n m (d + 1) a" and dm: "d < m" by simp_all
      have "deepest (d + 1) a \<le> max m (max (d + 1) 1)"
        using Node.IH(1)[of a "d + 1"] l g by simp
      with dm l None show ?thesis by (auto simp: max_def split: if_splits)
    next
      case (Some b)
      note r = this
      show ?thesis
      proof (cases "d = 0")
        case True
        with l r Node.prems consider
          "is_var_leaf E 0 n a" "generated E uk bk n m (d + 1) b"
          | "generated E uk bk n m (d + 1) a" "is_var_leaf E 0 n b" by auto
        then show ?thesis
        proof cases
          case 1
          have "deepest (d + 1) b \<le> max m (max (d + 1) 1)"
            using Node.IH(2)[of b "d + 1"] r 1 by simp
          with True l r is_var_leaf_deepest[OF 1(1), of "d + 1"] show ?thesis
            by (auto simp: max_def split: if_splits)
        next
          case 2
          have "deepest (d + 1) a \<le> max m (max (d + 1) 1)"
            using Node.IH(1)[of a "d + 1"] l 2 by simp
          with True l r is_var_leaf_deepest[OF 2(2), of "d + 1"] show ?thesis
            by (auto simp: max_def split: if_splits)
        qed
      next
        case False
        with l r Node.prems have ga: "generated E uk bk n m (d + 1) a"
          and gb: "generated E uk bk n m (d + 1) b" and dm: "d < m" by simp_all
        have "deepest (d + 1) a \<le> max m (max (d + 1) 1)"
          using Node.IH(1)[of a "d + 1"] l ga by simp
        moreover have "deepest (d + 1) b \<le> max m (max (d + 1) 1)"
          using Node.IH(2)[of b "d + 1"] r gb by simp
        ultimately show ?thesis using dm l r by (auto simp: max_def split: if_splits)
      qed
    qed
  qed
qed

lemma var_leaf_arity:
  assumes "is_var_leaf E lo hi t"
    and "\<forall>i. get_var_name E i \<notin> set (UNARY_OPS E) \<union> set (BINARY_OPS E)"
  shows "arity_ok E t"
  using assms by (auto simp: is_var_leaf_def var_node_def op_in_def)


section \<open>Claims about mutation\<close>

text \<open>
  C9. A node whose symbol is in neither operator registry passes through the
  operator mutation untouched: once the mutation type \<open>OPERATOR\<close> has been drawn,
  the first half of \<open>mutate\<close> raises no error, makes no further draw, and falls
  through to the recursion into the children with the node's symbol and constant
  as they were.
\<close>

theorem operator_mutation_noop_outside_registries:
  assumes "\<not> op_in (op node) (UNARY_OPS E)" and "\<not> op_in (op node) (BINARY_OPS E)"
    and "rnd_random R s = (u, s1)" and "u < mutation_prob"
    and "choices R (dict_keys (MUTATION_WEIGHTS config)) (dict_values (MUTATION_WEIGHTS config)) s1
           = Inr (OPERATOR, s2)"
  shows "mutate_node E R config node mutation_prob max_depth n_variables unary_weights
           binary_weights s = Inr (Continue (op node) (nvalue node) s2)"
  using assms by (simp add: mutate_node_def)

theorem operator_mutation_noop_outside_registries_witness:
  "mutate_node example_env scripted example_mutation_config
     (Node (Some ''tan'') None (Some (const_node 2)) None) 1 3 2
     example_unary_weights example_binary_weights [5, 1]
   = Inr (Continue (Some ''tan'') None [])"
proof -
  let ?node = "Node (Some ''tan'') None (Some (const_node 2)) None"
  have h1: "\<not> op_in (op ?node) (UNARY_OPS example_env)"
    by (simp add: op_in_def example_env_def)
  have h2: "\<not> op_in (op ?node) (BINARY_OPS example_env)"
    by (simp add: op_in_def example_env_def)
  have h3: "rnd_random scripted [5, 1] = (1 / 2, [1])"
    by (simp add: scripted_def)
  have h4: "(1 / 2 :: real) < 1" by simp
  have h5: "choices scripted (dict_keys (MUTATION_WEIGHTS example_mutation_config))
              (dict_values (MUTATION_WEIGHTS example_mutation_config)) [1] = Inr (OPERATOR, [])"
    by (simp add: choices_def scripted_def dict_keys_def dict_values_def
        example_mutation_config_def)
  show ?thesis
    using operator_mutation_noop_outside_registries[OF h1 h2 h3 h4 h5] by simp
qed

section \<open>Claims about the generator\<close>

lemma create_random_tree_root:
  assumes "create_random_tree E R config 0 m n uwo bwo s = Inr (t, s')"
  shows "\<exists>name i s3 c.
           name \<in> set (dict_keys (resolve_weights bwo (BINARY_OPS E)))
           \<and> 0 \<le> i \<and> i \<le> n
           \<and> create_random_tree E R (default_TreeConfig E) 1 m n
                (Some (resolve_weights uwo (UNARY_OPS E)))
                (Some (resolve_weights bwo (BINARY_OPS E))) s3 = Inr (c, s')
           \<and> (t = Node (Some name) None (Some (var_node E i)) (Some c)
              \<or> t = Node (Some name) None (Some c) (Some (var_node E i)))"
  using assms
  apply (subst (asm) create_random_tree.simps)
  apply (auto simp: Let_def split: if_splits sum.splits prod.splits
      dest!: choices_member randint_range)
  done

lemma example_run:
  "create_random_tree example_env scripted example_tree_config 0 2 2
     (Some example_unary_weights) (Some example_binary_weights) [0, 1, 3, 5, 1, 0, 9, 5]
   = Inr (Node (Some ''+'') None (Some (Node (Some ''x1'') None None None))
            (Some (Node (Some ''sin'') None (Some (Node None (Some 0) None None)) None)), [])"
  by (simp add: create_random_tree.simps terminal_def choices_def randint_def
      scripted_def example_tree_config_def example_var_name_def example_env_def
      example_unary_weights_def example_binary_weights_def dict_keys_def dict_values_def
      var_node_def const_node_def)

lemma has_variable_leaf: "is_var_leaf E lo hi t \<Longrightarrow> has_variable E lo hi t"
  by (cases t) simp

text \<open>
  C4. Every tree returned by a call at depth 0 contains a variable leaf: its root
  carries a symbol drawn from the binary weights and has both children, one of them
  the forced variable leaf (index in \<open>[0, n_variables]\<close>), the other the tree
  returned by the recursive call at depth 1.
\<close>

theorem root_tree_has_variable:
  assumes "create_random_tree E R config 0 max_depth n_variables unary_weights
             binary_weights s = Inr (t, s')"
  shows "has_variable E 0 n_variables t
         \<and> (\<exists>name a b s3.
               t = Node (Some name) None (Some a) (Some b)
               \<and> name \<in> set (dict_keys (resolve_weights binary_weights (BINARY_OPS E)))
               \<and> ((is_var_leaf E 0 n_variables a
                    \<and> create_random_tree E R (default_TreeConfig E) 1 max_depth n_variables
                         (Some (resolve_weights unary_weights (UNARY_OPS E)))
                         (Some (resolve_weights binary_weights (BINARY_OPS E))) s3 = Inr (b, s'))
                  \<or> (is_var_leaf E 0 n_variables b
                    \<and> create_random_tree E R (default_TreeConfig E) 1 max_depth n_variables
                         (Some (resolve_weights unary_weights (UNARY_OPS E)))
                         (Some (resolve_weights binary_weights (BINARY_OPS E))) s3 = Inr (a, s'))))"
proof -
  from create_random_tree_root[OF assms] obtain name i s3 c where
    name: "name \<in> set (dict_keys (resolve_weights binary_weights (BINARY_OPS E)))"
    and i: "0 \<le> i" "i \<le> n_variables"
    and c: "create_random_tree E R (default_TreeConfig E) 1 max_depth n_variables
              (Some (resolve_weights unary_weights (UNARY_OPS E)))
              (Some (resolve_weights binary_weights (BINARY_OPS E))) s3 = Inr (c, s')"
    and t: "t = Node (Some name) None (Some (var_node E i)) (Some c)
            \<or> t = Node (Some name) None (Some c) (Some (var_node E i))"
    by (elim exE conjE)
  have leaf: "is_var_leaf E 0 n_variables (var_node E i)"
    using i by (auto simp: is_var_leaf_def)
  from t show ?thesis
  proof
    assume t1: "t = Node (Some name) None (Some (var_node E i)) (Some c)"
    have "has_variable E 0 n_variables t"
      unfolding t1 using has_variable_leaf[OF leaf] by simp
    then show ?thesis
      apply (rule conjI)
      apply (rule exI[of _ name], rule exI[of _ "var_node E i"], rule exI[of _ c],
          rule exI[of _ s3])
      using t1 name leaf c apply simp
      done
  next
    assume t2: "t = Node (Some name) None (Some c) (Some (var_node E i))"
    have "has_variable E 0 n_variables t"
      unfolding t2 using has_variable_leaf[OF leaf] by simp
    then show ?thesis
      apply (rule conjI)
      apply (rule exI[of _ name], rule exI[of _ c], rule exI[of _ "var_node E i"],
          rule exI[of _ s3])
      using t2 name leaf c apply simp
      done
  qed
qed

theorem root_tree_has_variable_witness:
  "has_variable example_env 0 2
     (Node (Some ''+'') None (Some (Node (Some ''x1'') None None None))
        (Some (Node (Some ''sin'') None (Some (Node None (Some 0) None None)) None)))"
  using root_tree_has_variable[OF example_run] by (rule conjunct1)

section \<open>Claims about the mutation types\<close>

lemma randint_gauss [simp]: "randint (R\<lparr>rnd_gauss := g\<rparr>) a b s = randint R a b s"
  by (simp add: randint_def)

lemma choices_gauss [simp]: "choices (R\<lparr>rnd_gauss := g\<rparr>) p w s = choices R p w s"
  by (simp add: choices_def)

lemma terminal_gauss [simp]:
  "terminal E (R\<lparr>rnd_gauss := g\<rparr>) config cr n s = terminal E R config cr n s"
  by (simp add: terminal_def split: prod.splits)

lemma create_random_tree_gauss:
  "create_random_tree E (R\<lparr>rnd_gauss := g\<rparr>) config depth m n uwo bwo s
   = create_random_tree E R config depth m n uwo bwo s"
proof (induction E R config depth m n uwo bwo s rule: create_random_tree.induct)
  case (1 E R config depth m n uwo bwo s)
  show ?case
    apply (simp only: create_random_tree.simps[of E R config depth]
        create_random_tree.simps[of E "R\<lparr>rnd_gauss := g\<rparr>" config depth])
    using 1
    apply (auto simp: Let_def split: sum.splits prod.splits if_splits)
    done
qed


lemma mutate_node_gauss:
  "mutate_node E (R\<lparr>rnd_gauss := g\<rparr>) config node p md n uw bw s
   = mutate_node E R config node p md n uw bw s"
  by (auto simp: mutate_node_def create_random_tree_gauss split: prod.splits sum.splits)

text \<open>
  C1. The constant perturbation is dead code. Its guard repeats the test for the
  mutation type \<open>OPERATOR\<close> that the branch before it has already consumed, so the
  Gaussian draw is never made: for every node, probability, configuration, random
  source and state, \<open>mutate\<close> returns the same tree and the same final state
  whatever the Gaussian oracle \<open>g\<close> is.
\<close>

theorem constant_perturbation_unreachable:
  "mutate E (R\<lparr>rnd_gauss := g\<rparr>) config node mutation_prob max_depth n_variables
     unary_weights binary_weights s
   = mutate E R config node mutation_prob max_depth n_variables unary_weights binary_weights s"
proof (induction E R config node mutation_prob max_depth n_variables unary_weights
    binary_weights s rule: mutate.induct)
  case (1 E R config opr v l r mutation_prob max_depth n_variables unary_weights binary_weights s)
  show ?case
    apply (simp only: mutate.simps[of E R config] mutate.simps[of E "R\<lparr>rnd_gauss := g\<rparr>" config]
        mutate_node_gauss)
    using 1
    apply (auto split: sum.splits step.splits option.splits prod.splits)
    done
qed


theorem constant_perturbation_unreachable_witness:
  "mutate example_env (scripted\<lparr>rnd_gauss := (\<lambda>m sd s. (m + 100, s))\<rparr>) example_mutation_config
     (const_node 2) 1 3 2 example_unary_weights example_binary_weights [5, 1]
   = Inr (const_node 2, [])"
proof -
  have "mutate example_env scripted example_mutation_config
     (const_node 2) 1 3 2 example_unary_weights example_binary_weights [5, 1]
   = Inr (const_node 2, [])"
    by (simp add: mutate.simps mutate_node_def const_node_def choices_def scripted_def
        example_mutation_config_def example_env_def dict_keys_def dict_values_def op_in_def)
  then show ?thesis
    by (simp only: constant_perturbation_unreachable)
qed

lemma copy_id [simp]: "copy t = t"
proof (induction t)
  case (Node opr v l r)
  have "map_option copy l = l" using Node(1) by (cases l) simp_all
  moreover have "map_option copy r = r" using Node(2) by (cases r) simp_all
  ultimately show ?case by simp
qed

lemma mutate_return:
  "mutate_node E R config node p md n uw bw s = Inr (Return t s') \<Longrightarrow>
   mutate E R config node p md n uw bw s = Inr (t, s')"
  by (cases node) (simp add: mutate.simps)

lemma mutate_node_simplify:
  assumes "rnd_random R s = (u, s1)" and "u < p"
    and "choices R (dict_keys (MUTATION_WEIGHTS config)) (dict_values (MUTATION_WEIGHTS config)) s1
           = Inr (SIMPLIFY, s2)"
    and "op node = Some ''*''"
  shows "mutate_node E R config node p md n uw bw s =
     (if child_value_is (left node) 0 \<or> child_value_is (right node) 0 then
        Inr (Return (const_node 0) s2)
      else if child_value_is (left node) 1 then
        (case right node of Some b \<Rightarrow> Inr (Return (copy b) s2) | None \<Rightarrow> Inr (Return node s2))
      else if child_value_is (right node) 1 then
        (case left node of Some a \<Rightarrow> Inr (Return (copy a) s2) | None \<Rightarrow> Inr (Return node s2))
      else Inr (Continue (op node) (nvalue node) s2))"
  using assms by (simp add: mutate_node_def)

lemma payload_constant:
  "payload_ok t \<Longrightarrow> nvalue t = Some c \<Longrightarrow> t = const_node c"
  by (cases t) (auto simp: const_node_def)

lemma payload_children:
  "payload_ok node \<Longrightarrow> left node = Some a \<Longrightarrow> payload_ok a"
  "payload_ok node \<Longrightarrow> right node = Some b \<Longrightarrow> payload_ok b"
  by (cases node; simp)+

text \<open>
  C7. Once the mutation type \<open>SIMPLIFY\<close> has been drawn at a multiplication node:
  if the left child carries the constant 0, \<open>mutate\<close> returns a constant-0 node,
  whatever the right subtree is; if the right child carries the constant 1,
  \<open>mutate\<close> returns a copy of the left subtree. The second part is stated for
  trees of the data model (a node carries either a symbol or a constant, and a
  constant node has no children).
\<close>

theorem simplify_zero_left_one_right:
  assumes "rnd_random R s = (u, s1)" and "u < mutation_prob"
    and "choices R (dict_keys (MUTATION_WEIGHTS config)) (dict_values (MUTATION_WEIGHTS config)) s1
           = Inr (SIMPLIFY, s2)"
    and "op node = Some ''*''"
  shows "(child_value_is (left node) 0 \<longrightarrow>
            mutate E R config node mutation_prob max_depth n_variables unary_weights
              binary_weights s = Inr (const_node 0, s2))
         \<and> (\<forall>a. payload_ok node \<and> left node = Some a \<and> child_value_is (right node) 1 \<longrightarrow>
            mutate E R config node mutation_prob max_depth n_variables unary_weights
              binary_weights s = Inr (copy a, s2))"
proof (intro conjI allI impI)
  assume "child_value_is (left node) 0"
  then have "mutate_node E R config node mutation_prob max_depth n_variables unary_weights
               binary_weights s = Inr (Return (const_node 0) s2)"
    using mutate_node_simplify[OF assms] by simp
  then show "mutate E R config node mutation_prob max_depth n_variables unary_weights
               binary_weights s = Inr (const_node 0, s2)"
    by (rule mutate_return)
next
  fix a
  assume h: "payload_ok node \<and> left node = Some a \<and> child_value_is (right node) 1"
  then obtain b where b: "right node = Some b" "nvalue b = Some 1"
    by (auto simp: child_value_is_def split: option.splits)
  have pa: "payload_ok a" and pb: "payload_ok b"
    using h b payload_children by blast+
  have b1: "b = const_node 1" using pb b(2) by (rule payload_constant)
  have "mutate_node E R config node mutation_prob max_depth n_variables unary_weights
               binary_weights s = Inr (Return (copy a) s2)"
  proof (cases "nvalue a = Some 0")
    case True
    then have "a = const_node 0" using pa by (simp add: payload_constant)
    moreover have "child_value_is (left node) 0" using h True by (simp add: child_value_is_def)
    ultimately show ?thesis using mutate_node_simplify[OF assms] by simp
  next
    case False
    note n0 = this
    show ?thesis
    proof (cases "nvalue a = Some 1")
      case True
      then have "a = const_node 1" using pa by (simp add: payload_constant)
      then show ?thesis
        using mutate_node_simplify[OF assms] h b b1 n0 True
        by (simp add: child_value_is_def)
    next
      case False
      then show ?thesis
        using mutate_node_simplify[OF assms] h b n0
        by (simp add: child_value_is_def)
    qed
  qed
  then show "mutate E R config node mutation_prob max_depth n_variables unary_weights
               binary_weights s = Inr (copy a, s2)"
    by (rule mutate_return)
qed


lemma example_simplify_draws:
  "rnd_random scripted [5, 3] = (1 / 2, [3])"
  "(1 / 2 :: real) < 1"
  "choices scripted (dict_keys (MUTATION_WEIGHTS example_mutation_config))
     (dict_values (MUTATION_WEIGHTS example_mutation_config)) [3] = Inr (SIMPLIFY, [])"
  by (simp_all add: scripted_def choices_def dict_keys_def dict_values_def
      example_mutation_config_def)

theorem simplify_zero_left_one_right_witness:
  "mutate example_env scripted example_mutation_config
     (Node (Some ''*'') None (Some (const_node 0)) (Some (Node (Some ''x1'') None None None)))
     1 3 2 example_unary_weights example_binary_weights [5, 3]
   = Inr (const_node 0, [])
   \<and> mutate example_env scripted example_mutation_config
     (Node (Some ''*'') None (Some (Node (Some ''x1'') None None None)) (Some (const_node 1)))
     1 3 2 example_unary_weights example_binary_weights [5, 3]
   = Inr (Node (Some ''x1'') None None None, [])"
proof -
  let ?x = "Node (Some ''x1'') None None None"
  let ?n1 = "Node (Some ''*'') None (Some (const_node 0)) (Some ?x)"
  let ?n2 = "Node (Some ''*'') None (Some ?x) (Some (const_node 1))"
  have o1: "op ?n1 = Some ''*''" and o2: "op ?n2 = Some ''*''" by simp_all
  have z: "child_value_is (left ?n1) 0" by (simp add: child_value_is_def const_node_def)
  have p: "payload_ok ?n2 \<and> left ?n2 = Some ?x \<and> child_value_is (right ?n2) 1"
    by (simp add: child_value_is_def const_node_def)
  have "mutate example_env scripted example_mutation_config ?n1
          1 3 2 example_unary_weights example_binary_weights [5, 3] = Inr (const_node 0, [])"
    using simplify_zero_left_one_right[OF example_simplify_draws o1] z by blast
  moreover have "mutate example_env scripted example_mutation_config ?n2
          1 3 2 example_unary_weights example_binary_weights [5, 3] = Inr (copy ?x, [])"
    using simplify_zero_left_one_right[OF example_simplify_draws o2] p by blast
  ultimately show ?thesis by simp
qed

text \<open>
  C10. The mirrored patterns of \<open>SIMPLIFY\<close> at a multiplication node: a right child
  with the constant 0 yields a constant-0 node; a left child with the constant 1
  yields a copy of the right subtree (for trees of the data model); and when the
  child with the constant 1 has no sibling, the node itself is returned.
\<close>

theorem simplify_mirrored_patterns:
  assumes "rnd_random R s = (u, s1)" and "u < mutation_prob"
    and "choices R (dict_keys (MUTATION_WEIGHTS config)) (dict_values (MUTATION_WEIGHTS config)) s1
           = Inr (SIMPLIFY, s2)"
    and "op node = Some ''*''"
  shows "(child_value_is (right node) 0 \<longrightarrow>
            mutate E R config node mutation_prob max_depth n_variables unary_weights
              binary_weights s = Inr (const_node 0, s2))
         \<and> (\<forall>b. payload_ok node \<and> child_value_is (left node) 1 \<and> right node = Some b \<longrightarrow>
            mutate E R config node mutation_prob max_depth n_variables unary_weights
              binary_weights s = Inr (copy b, s2))
         \<and> (child_value_is (left node) 1 \<and> right node = None \<longrightarrow>
            mutate E R config node mutation_prob max_depth n_variables unary_weights
              binary_weights s = Inr (node, s2))
         \<and> (child_value_is (right node) 1 \<and> left node = None \<longrightarrow>
            mutate E R config node mutation_prob max_depth n_variables unary_weights
              binary_weights s = Inr (node, s2))"
proof (intro conjI allI impI)
  assume "child_value_is (right node) 0"
  then have "mutate_node E R config node mutation_prob max_depth n_variables unary_weights
               binary_weights s = Inr (Return (const_node 0) s2)"
    using mutate_node_simplify[OF assms] by simp
  then show "mutate E R config node mutation_prob max_depth n_variables unary_weights
               binary_weights s = Inr (const_node 0, s2)"
    by (rule mutate_return)
next
  fix b
  assume h: "payload_ok node \<and> child_value_is (left node) 1 \<and> right node = Some b"
  then have l0: "\<not> child_value_is (left node) 0"
    by (auto simp: child_value_is_def split: option.splits)
  have pb: "payload_ok b" using h payload_children(2) by blast
  have "mutate_node E R config node mutation_prob max_depth n_variables unary_weights
               binary_weights s = Inr (Return (copy b) s2)"
  proof (cases "nvalue b = Some 0")
    case True
    then have "b = const_node 0" using pb by (simp add: payload_constant)
    moreover have "child_value_is (right node) 0" using h True by (simp add: child_value_is_def)
    ultimately show ?thesis using mutate_node_simplify[OF assms] by simp
  next
    case False
    then have "\<not> child_value_is (right node) 0" using h by (simp add: child_value_is_def)
    then show ?thesis using mutate_node_simplify[OF assms] h l0 by simp
  qed
  then show "mutate E R config node mutation_prob max_depth n_variables unary_weights
               binary_weights s = Inr (copy b, s2)"
    by (rule mutate_return)
next
  assume h: "child_value_is (left node) 1 \<and> right node = None"
  then have "\<not> child_value_is (left node) 0" and "\<not> child_value_is (right node) 0"
    by (auto simp: child_value_is_def split: option.splits)
  then have "mutate_node E R config node mutation_prob max_depth n_variables unary_weights
               binary_weights s = Inr (Return node s2)"
    using mutate_node_simplify[OF assms] h by simp
  then show "mutate E R config node mutation_prob max_depth n_variables unary_weights
               binary_weights s = Inr (node, s2)"
    by (rule mutate_return)
next
  assume h: "child_value_is (right node) 1 \<and> left node = None"
  then have "\<not> child_value_is (left node) 0" and "\<not> child_value_is (right node) 0"
    and "\<not> child_value_is (left node) 1"
    by (auto simp: child_value_is_def split: option.splits)
  then have "mutate_node E R config node mutation_prob max_depth n_variables unary_weights
               binary_weights s = Inr (Return node s2)"
    using mutate_node_simplify[OF assms] h by simp
  then show "mutate E R config node mutation_prob max_depth n_variables unary_weights
               binary_weights s = Inr (node, s2)"
    by (rule mutate_return)
qed

theorem simplify_mirrored_patterns_witness:
  "mutate example_env scripted example_mutation_config
     (Node (Some ''*'') None (Some (Node (Some ''x1'') None None None)) (Some (const_node 0)))
     1 3 2 example_unary_weights example_binary_weights [5, 3]
   = Inr (const_node 0, [])
   \<and> mutate example_env scripted example_mutation_config
     (Node (Some ''*'') None (Some (const_node 1)) (Some (Node (Some ''x1'') None None None)))
     1 3 2 example_unary_weights example_binary_weights [5, 3]
   = Inr (Node (Some ''x1'') None None None, [])
   \<and> mutate example_env scripted example_mutation_config
     (Node (Some ''*'') None (Some (const_node 1)) None)
     1 3 2 example_unary_weights example_binary_weights [5, 3]
   = Inr (Node (Some ''*'') None (Some (const_node 1)) None, [])
   \<and> mutate example_env scripted example_mutation_config
     (Node (Some ''*'') None None (Some (const_node 1)))
     1 3 2 example_unary_weights example_binary_weights [5, 3]
   = Inr (Node (Some ''*'') None None (Some (const_node 1)), [])"
proof -
  let ?x = "Node (Some ''x1'') None None None"
  let ?n1 = "Node (Some ''*'') None (Some ?x) (Some (const_node 0))"
  let ?n2 = "Node (Some ''*'') None (Some (const_node 1)) (Some ?x)"
  let ?n3 = "Node (Some ''*'') None (Some (const_node 1)) None"
  let ?n4 = "Node (Some ''*'') None None (Some (const_node 1))"
  have o: "op ?n1 = Some ''*''" "op ?n2 = Some ''*''" "op ?n3 = Some ''*''" "op ?n4 = Some ''*''"
    by simp_all
  have p1: "child_value_is (right ?n1) 0" by (simp add: child_value_is_def const_node_def)
  have p2: "payload_ok ?n2 \<and> child_value_is (left ?n2) 1 \<and> right ?n2 = Some ?x"
    by (simp add: child_value_is_def const_node_def)
  have p3: "child_value_is (left ?n3) 1 \<and> right ?n3 = None"
    by (simp add: child_value_is_def const_node_def)
  have p4: "child_value_is (right ?n4) 1 \<and> left ?n4 = None"
    by (simp add: child_value_is_def const_node_def)
  have "mutate example_env scripted example_mutation_config ?n1
          1 3 2 example_unary_weights example_binary_weights [5, 3] = Inr (const_node 0, [])"
    using simplify_mirrored_patterns[OF example_simplify_draws o(1)] p1 by blast
  moreover have "mutate example_env scripted example_mutation_config ?n2
          1 3 2 example_unary_weights example_binary_weights [5, 3] = Inr (copy ?x, [])"
    using simplify_mirrored_patterns[OF example_simplify_draws o(2)] p2 by blast
  moreover have "mutate example_env scripted example_mutation_config ?n3
          1 3 2 example_unary_weights example_binary_weights [5, 3] = Inr (?n3, [])"
    using simplify_mirrored_patterns[OF example_simplify_draws o(3)] p3 by blast
  moreover have "mutate example_env scripted example_mutation_config ?n4
          1 3 2 example_unary_weights example_binary_weights [5, 3] = Inr (?n4, [])"
    using simplify_mirrored_patterns[OF example_simplify_draws o(4)] p4 by blast
  ultimately show ?thesis by simp
qed

section \<open>Subtree replacement and the depth limit\<close>

lemma deepest_shift: "deepest (d + k) t = deepest d t + k"
proof (induction t arbitrary: d)
  case (Node opr v l r)
  have l: "(case l of None \<Rightarrow> d + k | Some a \<Rightarrow> deepest (d + k + 1) a)
           = (case l of None \<Rightarrow> d | Some a \<Rightarrow> deepest (d + 1) a) + k"
    using Node.IH(1)[of _ "d + 1"] by (cases l) (simp_all add: add.commute add.left_commute)
  have r: "(case r of None \<Rightarrow> d + k | Some b \<Rightarrow> deepest (d + k + 1) b)
           = (case r of None \<Rightarrow> d | Some b \<Rightarrow> deepest (d + 1) b) + k"
    using Node.IH(2)[of _ "d + 1"] by (cases r) (simp_all add: add.commute add.left_commute)
  show ?case by (simp add: l r)
qed

lemma mutate_node_subtree:
  assumes "rnd_random R s = (u, s1)" and "u < p"
    and "choices R (dict_keys (MUTATION_WEIGHTS config)) (dict_values (MUTATION_WEIGHTS config)) s1
           = Inr (SUBTREE, s2)"
    and "randint R (fst (SUBTREE_DEPTH_RANGE config)) (snd (SUBTREE_DEPTH_RANGE config)) s2
           = Inr (r, s3)"
  shows "mutate_node E R config node p md n uw bw s =
     (case create_random_tree E R (default_TreeConfig E) r md n (Some uw) (Some bw) s3 of
        Inl e \<Rightarrow> Inl e
      | Inr (t, s4) \<Rightarrow> Inr (Return t s4))"
  using assms by (simp add: mutate_node_def)

lemma mutate_subtree:
  assumes "rnd_random R s = (u, s1)" and "u < p"
    and "choices R (dict_keys (MUTATION_WEIGHTS config)) (dict_values (MUTATION_WEIGHTS config)) s1
           = Inr (SUBTREE, s2)"
    and "randint R (fst (SUBTREE_DEPTH_RANGE config)) (snd (SUBTREE_DEPTH_RANGE config)) s2
           = Inr (r, s3)"
  shows "mutate E R config node p md n uw bw s
         = create_random_tree E R (default_TreeConfig E) r md n (Some uw) (Some bw) s3"
  by (cases node)
    (simp add: mutate.simps mutate_node_subtree[OF assms] split: sum.splits prod.splits)

lemmas example_run_defs = create_random_tree.simps terminal_def choices_def randint_def
  scripted_def example_tree_config_def example_mutation_config_def example_var_name_def
  example_env_def example_unary_weights_def example_binary_weights_def dict_keys_def
  dict_values_def var_node_def const_node_def

text \<open>
  C2, as stated, fails: \<open>mutate\<close> does not know the depth of the node it is called
  on. Under the limit 2, the leaf \<open>x1\<close> at depth 2 of \<open>sin(x1) + x2\<close> is replaced
  by a tree generated from the drawn start depth 1, which has a child of its own;
  the mutated tree has a node at depth 3.
\<close>

theorem subtree_replacement_exceeds_depth_counterexample:
  "deepest 0 (Node (Some ''+'') None
        (Some (Node (Some ''sin'') None (Some (Node (Some ''x1'') None None None)) None))
        (Some (Node (Some ''x2'') None None None))) \<le> 2
   \<and> mutate example_env scripted example_mutation_config
     (Node (Some ''+'') None
        (Some (Node (Some ''sin'') None (Some (Node (Some ''x1'') None None None)) None))
        (Some (Node (Some ''x2'') None None None)))
     (1 / 2) 2 2 example_unary_weights example_binary_weights [9, 9, 1, 0, 0, 5, 1, 0, 1, 0, 9]
   = Inr (Node (Some ''+'') None
        (Some (Node (Some ''sin'') None
           (Some (Node (Some ''sin'') None (Some (Node (Some ''x1'') None None None)) None))
           None))
        (Some (Node (Some ''x2'') None None None)), [])
   \<and> \<not> deepest 0 (Node (Some ''+'') None
        (Some (Node (Some ''sin'') None
           (Some (Node (Some ''sin'') None (Some (Node (Some ''x1'') None None None)) None))
           None))
        (Some (Node (Some ''x2'') None None None))) \<le> 2"
  by (simp add: mutate.simps mutate_node_def op_in_def example_run_defs)

section \<open>The generator: depth limit and arity\<close>

lemma generated_arity:
  assumes "set uk \<inter> set (BINARY_OPS E) = {}" and "set bk \<inter> set (UNARY_OPS E) = {}"
    and "\<forall>i. get_var_name E i \<notin> set (UNARY_OPS E) \<union> set (BINARY_OPS E)"
  shows "generated E uk bk n m d t \<Longrightarrow> arity_ok E t"
proof (induction t arbitrary: d)
  case (Node opr v l r)
  show ?case
  proof (cases l)
    case None
    with Node.prems have r: "r = None" and
      shape: "(opr = None \<and> v \<noteq> None) \<or> is_var_leaf E 1 n (Node opr v l r)" by auto
    from shape show ?thesis
    proof
      assume "opr = None \<and> v \<noteq> None"
      with None r show ?thesis by (simp add: op_in_def)
    next
      assume "is_var_leaf E 1 n (Node opr v l r)"
      then show ?thesis by (rule var_leaf_arity[OF _ assms(3)])
    qed
  next
    case (Some a)
    note l = this
    show ?thesis
    proof (cases r)
      case None
      with l Node.prems have g: "generated E uk bk n m (d + 1) a" and u: "op_in opr uk" by simp_all
      have "arity_ok E a" using Node.IH(1)[of a "d + 1"] l g by simp
      moreover have "\<not> op_in opr (BINARY_OPS E)"
        using u assms(1) by (auto simp: op_in_def split: option.splits)
      ultimately show ?thesis using l None by simp
    next
      case (Some b)
      with l Node.prems have u: "op_in opr bk" by simp
      from Some l Node.prems have
        "(is_var_leaf E 0 n a \<or> generated E uk bk n m (d + 1) a)
         \<and> (is_var_leaf E 0 n b \<or> generated E uk bk n m (d + 1) b)"
        by (auto split: if_splits)
      then have "arity_ok E a" and "arity_ok E b"
        using Node.IH(1)[of a "d + 1"] Node.IH(2)[of b "d + 1"] l Some
          var_leaf_arity[OF _ assms(3)] by auto
      moreover have "\<not> op_in opr (UNARY_OPS E)"
        using u assms(2) by (auto simp: op_in_def split: option.splits)
      ultimately show ?thesis using l Some by simp
    qed
  qed
qed

text \<open>
  C3, as stated, fails. On the depth: the root block comes before the test of the
  depth floor, so a call at depth 0 under the limit 0 builds an operator with two
  children at depth 1; and a call at a depth above the limit returns a leaf at that
  depth. On the arity: the generator trusts its tables, so a binary symbol in the
  unary table gets one child, a unary symbol in the binary table gets two, and a
  variable whose name is an operator symbol gets none.
\<close>

theorem generator_depth_and_arity_counterexample:
  "create_random_tree example_env scripted example_tree_config 0 0 2
     (Some example_unary_weights) (Some example_binary_weights) [0, 0, 3, 1, 0]
   = Inr (Node (Some ''+'') None (Some (Node (Some ''x0'') None None None))
            (Some (Node (Some ''x1'') None None None)), [])
   \<and> \<not> deepest 0 (Node (Some ''+'') None (Some (Node (Some ''x0'') None None None))
            (Some (Node (Some ''x1'') None None None))) \<le> 0
   \<and> create_random_tree example_env scripted example_tree_config 3 2 2
     (Some example_unary_weights) (Some example_binary_weights) [1, 0]
   = Inr (Node (Some ''x1'') None None None, [])
   \<and> \<not> deepest 3 (Node (Some ''x1'') None None None) \<le> 2
   \<and> create_random_tree example_env scripted example_tree_config 1 2 2
     (Some [(''+'', 1)]) (Some example_binary_weights) [5, 1, 0, 1, 0]
   = Inr (Node (Some ''+'') None (Some (Node (Some ''x1'') None None None)) None, [])
   \<and> \<not> arity_ok example_env
         (Node (Some ''+'') None (Some (Node (Some ''x1'') None None None)) None)
   \<and> create_random_tree example_env scripted example_tree_config 0 1 2
     (Some example_unary_weights) (Some [(''sin'', 1)]) [0, 0, 3, 1, 0]
   = Inr (Node (Some ''sin'') None (Some (Node (Some ''x0'') None None None))
            (Some (Node (Some ''x1'') None None None)), [])
   \<and> \<not> arity_ok example_env
         (Node (Some ''sin'') None (Some (Node (Some ''x0'') None None None))
            (Some (Node (Some ''x1'') None None None)))
   \<and> create_random_tree clashing_env scripted example_tree_config 2 2 2
     (Some example_unary_weights) (Some example_binary_weights) [1, 0]
   = Inr (Node (Some ''exp'') None None None, [])
   \<and> \<not> arity_ok clashing_env (Node (Some ''exp'') None None None)"
  by (simp add: create_random_tree.simps terminal_def choices_def randint_def
      scripted_def example_tree_config_def example_var_name_def example_env_def
      example_unary_weights_def example_binary_weights_def dict_keys_def dict_values_def
      var_node_def clashing_env_def op_in_def)

text \<open>
  C3, amended. A tree returned by \<open>create_random_tree\<close> has no node deeper than the
  largest of the limit, the start depth and 1; so none is deeper than the limit when
  the start depth does not exceed the limit and the limit is at least 1. The tree
  obeys the arity invariant when no symbol of the unary table is a binary operator,
  no symbol of the binary table is a unary operator, and no variable name is an
  operator symbol.
\<close>

theorem create_random_tree_valid_and_bounded:
  assumes "create_random_tree E R config depth max_depth n_variables unary_weights
             binary_weights s = Inr (t, s')"
  shows "deepest depth t \<le> max max_depth (max depth 1)
         \<and> (depth \<le> max_depth \<and> 1 \<le> max_depth \<longrightarrow> deepest depth t \<le> max_depth)
         \<and> (set (dict_keys (resolve_weights unary_weights (UNARY_OPS E))) \<inter> set (BINARY_OPS E) = {}
              \<and> set (dict_keys (resolve_weights binary_weights (BINARY_OPS E)))
                   \<inter> set (UNARY_OPS E) = {}
              \<and> (\<forall>i. get_var_name E i \<notin> set (UNARY_OPS E) \<union> set (BINARY_OPS E))
              \<longrightarrow> arity_ok E t)"
proof -
  have g: "generated E (dict_keys (resolve_weights unary_weights (UNARY_OPS E)))
             (dict_keys (resolve_weights binary_weights (BINARY_OPS E)))
             n_variables max_depth depth t"
    using assms by (rule generated_create_random_tree)
  have b: "deepest depth t \<le> max max_depth (max depth 1)"
    using g by (rule generated_deepest)
  then have c: "depth \<le> max_depth \<and> 1 \<le> max_depth \<longrightarrow> deepest depth t \<le> max_depth"
    by (auto simp: max_def split: if_splits)
  have a: "set (dict_keys (resolve_weights unary_weights (UNARY_OPS E))) \<inter> set (BINARY_OPS E) = {}
              \<and> set (dict_keys (resolve_weights binary_weights (BINARY_OPS E)))
                   \<inter> set (UNARY_OPS E) = {}
              \<and> (\<forall>i. get_var_name E i \<notin> set (UNARY_OPS E) \<union> set (BINARY_OPS E))
              \<longrightarrow> arity_ok E t"
  proof
    assume h: "set (dict_keys (resolve_weights unary_weights (UNARY_OPS E)))
                 \<inter> set (BINARY_OPS E) = {}
              \<and> set (dict_keys (resolve_weights binary_weights (BINARY_OPS E)))
                   \<inter> set (UNARY_OPS E) = {}
              \<and> (\<forall>i. get_var_name E i \<notin> set (UNARY_OPS E) \<union> set (BINARY_OPS E))"
    show "arity_ok E t"
      by (rule generated_arity[OF h[THEN conjunct1] h[THEN conjunct2, THEN conjunct1]
            h[THEN conjunct2, THEN conjunct2] g])
  qed
  from b c a show ?thesis by (intro conjI)
qed

lemma example_registry:
  "set (dict_keys (resolve_weights (Some example_unary_weights) (UNARY_OPS example_env)))
     \<inter> set (BINARY_OPS example_env) = {}
   \<and> set (dict_keys (resolve_weights (Some example_binary_weights) (BINARY_OPS example_env)))
     \<inter> set (UNARY_OPS example_env) = {}
   \<and> (\<forall>i. get_var_name example_env i
          \<notin> set (UNARY_OPS example_env) \<union> set (BINARY_OPS example_env))"
  by (simp add: example_env_def example_unary_weights_def example_binary_weights_def
      dict_keys_def example_var_name_def)

theorem create_random_tree_valid_and_bounded_witness:
  "deepest 0
     (Node (Some ''+'') None (Some (Node (Some ''x1'') None None None))
        (Some (Node (Some ''sin'') None (Some (Node None (Some 0) None None)) None))) \<le> 2
   \<and> arity_ok example_env
     (Node (Some ''+'') None (Some (Node (Some ''x1'') None None None))
        (Some (Node (Some ''sin'') None (Some (Node None (Some 0) None None)) None)))"
proof -
  have d: "(0::int) \<le> 2 \<and> (1::int) \<le> 2" by simp
  from create_random_tree_valid_and_bounded[OF example_run] d example_registry
  show ?thesis by blast
qed

section \<open>The generator: the ranges of the variable indices\<close>



lemma random_replay [simp]: "rnd_random replay (u # us, ks) = (u, (us, ks))"
  by (simp add: replay_def)

lemma uniform_replay [simp]: "rnd_uniform replay a b s = (a, s)"
  by (simp add: replay_def)











section \<open>Mutation and the depth of the whole tree\<close>

lemma budget_nonneg: "0 \<le> max m (max lo 1) - (lo::int)"
  by (auto simp: max_def)

lemma budget_mono: "lo \<le> r \<Longrightarrow> max m (max r 1) - r \<le> max m (max lo 1) - (lo::int)"
  by (auto simp: max_def)

lemma child_depth:
  "left node = Some a \<Longrightarrow> deepest d a \<le> deepest d node"
  "right node = Some b \<Longrightarrow> deepest d b \<le> deepest d node"
  using deepest_shift[of d 1 a] deepest_shift[of d 1 b]
  by (cases node; simp)+

lemma replacement_depth:
  assumes "randint R lo' hi' s2 = Inr (r, s3)" and "lo \<le> lo'"
    and "create_random_tree E R config r m n uwo bwo s3 = Inr (t, s4)"
  shows "deepest d t \<le> d + (max m (max lo 1) - lo)"
proof -
  have "lo \<le> r" using randint_range[OF assms(1)] assms(2) by simp
  then have b: "max m (max r 1) - r \<le> max m (max lo 1) - lo" by (rule budget_mono)
  have "deepest r t \<le> max m (max r 1)"
    using generated_create_random_tree[OF assms(3)] by (rule generated_deepest)
  moreover have "deepest d t = deepest r t + (d - r)"
    using deepest_shift[of r "d - r" t] by simp
  ultimately show ?thesis using b by simp
qed

lemma mutate_node_return_depth:
  assumes "mutate_node E R config node p m n uw bw s = Inr (Return t s')"
    and "lo \<le> fst (SUBTREE_DEPTH_RANGE config)"
  shows "deepest d t \<le> deepest d node + (max m (max lo 1) - lo)"
proof -
  note B = budget_nonneg[of m lo]
  have d: "d \<le> deepest d node" by (rule deepest_ge)
  from assms(1) consider
    (subtree) r s2 s3 where "randint R (fst (SUBTREE_DEPTH_RANGE config))
         (snd (SUBTREE_DEPTH_RANGE config)) s2 = Inr (r, s3)"
       "create_random_tree E R (default_TreeConfig E) r m n (Some uw) (Some bw) s3 = Inr (t, s')"
    | (zero) "t = const_node 0"
    | (right) b where "right node = Some b" "t = copy b"
    | (left) a where "left node = Some a" "t = copy a"
    | (self) "t = node"
    by (auto simp: mutate_node_def split: prod.splits if_splits sum.splits option.splits)
  then show ?thesis
  proof cases
    case subtree
    from replacement_depth[OF subtree(1) assms(2) subtree(2), of d] d show ?thesis by simp
  next
    case zero
    with d B show ?thesis by (simp add: const_node_def)
  next
    case right
    with child_depth(2)[of node b d] B show ?thesis by simp
  next
    case left
    with child_depth(1)[of node a d] B show ?thesis by simp
  next
    case self
    with B show ?thesis by simp
  qed
qed


lemma mutate_depth_growth:
  "mutate E R config node p m n uw bw s = Inr (t, s') \<Longrightarrow>
   lo \<le> fst (SUBTREE_DEPTH_RANGE (default_MutationConfig E)) \<Longrightarrow>
   lo \<le> fst (SUBTREE_DEPTH_RANGE config) \<Longrightarrow>
   deepest d t \<le> deepest d node + (max m (max lo 1) - lo)"
proof (induction E R config node p m n uw bw s arbitrary: t s' d rule: mutate.induct)
  case (1 E R config opr v l r p m n uw bw s)
  let ?node = "Node opr v l r"
  let ?B = "max m (max lo 1) - lo"
  let ?p' = "p * MUTATION_VARIABLE_PROBABILITY config"
  note B = budget_nonneg[of m lo]
  show ?case
  proof (cases "mutate_node E R config ?node p m n uw bw s")
    case (Inl e)
    with "1.prems"(1) show ?thesis by (simp add: mutate.simps)
  next
    case (Inr st)
    show ?thesis
    proof (cases st)
      case (Return t0 s0)
      with Inr "1.prems"(1) have "t = t0" by (simp add: mutate.simps)
      with Inr Return have "mutate_node E R config ?node p m n uw bw s = Inr (Return t s0)"
        by simp
      then show ?thesis using "1.prems"(3) by (rule mutate_node_return_depth)
    next
      case (Continue opr' v' s1)
      let ?L = "case l of None \<Rightarrow> Inr (None, s1)
                | Some a \<Rightarrow>
                   (case mutate E R (default_MutationConfig E) a ?p' m n uw bw s1 of
                      Inl e \<Rightarrow> Inl e | Inr (a', s2) \<Rightarrow> Inr (Some a', s2))"
      from Inr Continue "1.prems"(1) obtain l' s2 where L: "?L = Inr (l', s2)"
        by (auto simp: mutate.simps split: sum.splits)
      let ?R = "case r of None \<Rightarrow> Inr (None, s2)
                | Some b \<Rightarrow>
                   (case mutate E R (default_MutationConfig E) b ?p' m n uw bw s2 of
                      Inl e \<Rightarrow> Inl e | Inr (b', s3) \<Rightarrow> Inr (Some b', s3))"
      from Inr Continue L "1.prems"(1) obtain r' s3 where Rr: "?R = Inr (r', s3)"
        and t: "t = Node opr' v' l' r'"
        by (auto simp: mutate.simps split: sum.splits)
      have lb: "(case l' of None \<Rightarrow> d | Some a' \<Rightarrow> deepest (d + 1) a')
                \<le> (case l of None \<Rightarrow> d | Some a \<Rightarrow> deepest (d + 1) a) + ?B"
      proof (cases l)
        case None
        with L B show ?thesis by simp
      next
        case (Some a)
        with L obtain a' where a': "l' = Some a'"
          "mutate E R (default_MutationConfig E) a ?p' m n uw bw s1 = Inr (a', s2)"
          by (auto split: sum.splits)
        have "deepest (d + 1) a' \<le> deepest (d + 1) a + ?B"
          using "1.IH"(1)[OF Inr Continue Some a'(2) "1.prems"(2) "1.prems"(2)] .
        with Some a'(1) show ?thesis by simp
      qed
      have rb: "(case r' of None \<Rightarrow> d | Some b' \<Rightarrow> deepest (d + 1) b')
                \<le> (case r of None \<Rightarrow> d | Some b \<Rightarrow> deepest (d + 1) b) + ?B"
      proof (cases r)
        case None
        with Rr B show ?thesis by simp
      next
        case (Some b)
        with Rr obtain b' where b': "r' = Some b'"
          "mutate E R (default_MutationConfig E) b ?p' m n uw bw s2 = Inr (b', s3)"
          by (auto split: sum.splits)
        have "deepest (d + 1) b' \<le> deepest (d + 1) b + ?B"
          using "1.IH"(2)[OF Inr Continue L refl Some b'(2) "1.prems"(2) "1.prems"(2)] .
        with Some b'(1) show ?thesis by simp
      qed
      from lb rb B show ?thesis unfolding t by (simp add: max_def)
    qed
  qed
qed


text \<open>
  C2, amended. \<open>mutate\<close> does not bound the replacement by the depth of the node
  it replaces. When the mutation type \<open>SUBTREE\<close> is drawn, the node is replaced by
  the tree that \<open>create_random_tree\<close> builds from a start depth drawn from
  \<open>SUBTREE_DEPTH_RANGE\<close>. So the whole mutated tree can be deeper than the tree
  it comes from, by at most \<open>max max_depth (max lo 1) - lo\<close>, where \<open>lo\<close> is a lower
  bound of the start depths (of the configuration passed and of the default
  configuration, under which the children are mutated). A tree within the limit
  stays within the limit when \<open>max_depth \<le> lo\<close> and \<open>1 \<le> lo\<close>.
\<close>

theorem mutate_whole_tree_depth:
  assumes "mutate E R config node mutation_prob max_depth n_variables unary_weights
             binary_weights s = Inr (t, s')"
    and "lo \<le> fst (SUBTREE_DEPTH_RANGE config)"
    and "lo \<le> fst (SUBTREE_DEPTH_RANGE (default_MutationConfig E))"
  shows "deepest 0 t \<le> deepest 0 node + (max max_depth (max lo 1) - lo)
         \<and> (max_depth \<le> lo \<and> 1 \<le> lo \<and> deepest 0 node \<le> max_depth \<longrightarrow>
              deepest 0 t \<le> max_depth)
         \<and> (\<forall>u s1 s2 r s3.
               rnd_random R s = (u, s1) \<and> u < mutation_prob
               \<and> choices R (dict_keys (MUTATION_WEIGHTS config))
                    (dict_values (MUTATION_WEIGHTS config)) s1 = Inr (SUBTREE, s2)
               \<and> randint R (fst (SUBTREE_DEPTH_RANGE config))
                    (snd (SUBTREE_DEPTH_RANGE config)) s2 = Inr (r, s3) \<longrightarrow>
               create_random_tree E R (default_TreeConfig E) r max_depth n_variables
                 (Some unary_weights) (Some binary_weights) s3 = Inr (t, s'))"
proof (intro conjI allI impI)
  show b: "deepest 0 t \<le> deepest 0 node + (max max_depth (max lo 1) - lo)"
    using assms(1,3,2) by (rule mutate_depth_growth)
  {
    assume "max_depth \<le> lo \<and> 1 \<le> lo \<and> deepest 0 node \<le> max_depth"
    with b show "deepest 0 t \<le> max_depth" by (auto simp: max_def split: if_splits)
  }
  fix u s1 s2 r s3
  assume h: "rnd_random R s = (u, s1) \<and> u < mutation_prob
               \<and> choices R (dict_keys (MUTATION_WEIGHTS config))
                    (dict_values (MUTATION_WEIGHTS config)) s1 = Inr (SUBTREE, s2)
               \<and> randint R (fst (SUBTREE_DEPTH_RANGE config))
                    (snd (SUBTREE_DEPTH_RANGE config)) s2 = Inr (r, s3)"
  have "mutate E R config node mutation_prob max_depth n_variables unary_weights
          binary_weights s
        = create_random_tree E R (default_TreeConfig E) r max_depth n_variables
            (Some unary_weights) (Some binary_weights) s3"
    by (rule mutate_subtree[OF h[THEN conjunct1] h[THEN conjunct2, THEN conjunct1]
          h[THEN conjunct2, THEN conjunct2, THEN conjunct1]
          h[THEN conjunct2, THEN conjunct2, THEN conjunct2]])
  with assms(1) show "create_random_tree E R (default_TreeConfig E) r max_depth n_variables
                 (Some unary_weights) (Some binary_weights) s3 = Inr (t, s')"
    by simp
qed

lemma example_leaf_replacement:
  "mutate example_env scripted example_mutation_config
     (Node (Some ''+'') None (Some (Node (Some ''x1'') None None None))
        (Some (Node (Some ''x2'') None None None)))
     (1 / 2) 1 2 example_unary_weights example_binary_weights [9, 1, 0, 0, 1, 1, 9]
   = Inr (Node (Some ''+'') None (Some (Node (Some ''x2'') None None None))
        (Some (Node (Some ''x2'') None None None)), [])"
  by (simp add: mutate.simps mutate_node_def op_in_def example_run_defs)

theorem mutate_whole_tree_depth_witness:
  "deepest 0 (Node (Some ''+'') None (Some (Node (Some ''x2'') None None None))
        (Some (Node (Some ''x2'') None None None))) \<le> 1"
proof -
  have lo: "1 \<le> fst (SUBTREE_DEPTH_RANGE example_mutation_config)"
    "1 \<le> fst (SUBTREE_DEPTH_RANGE (default_MutationConfig example_env))"
    by (simp_all add: example_mutation_config_def example_env_def)
  have p: "(1::int) \<le> 1 \<and> (1::int) \<le> 1
           \<and> deepest 0 (Node (Some ''+'') None (Some (Node (Some ''x1'') None None None))
                (Some (Node (Some ''x2'') None None None))) \<le> 1"
    by simp
  from mutate_whole_tree_depth[OF example_leaf_replacement lo] p show ?thesis by blast
qed

section \<open>Claims about the scores\<close>

lemma plot_prediction_analysis_returns:
  assumes "length (evaluate expression x) = length y" and "y \<noteq> []"
  shows "plot_prediction_analysis np evaluate expression x y
         = Inr (np_mean np (np_square np (map2 (fl_sub np) y (evaluate expression x))),
                fl_sub np (Finite 1)
                  (fl_div np (np_sum np (np_square np (map2 (fl_sub np) y (evaluate expression x))))
                             (np_sum np (np_square np (centred np y)))))"
  using assms by (simp add: plot_prediction_analysis_def np_subtract_def Let_def)

lemma one_minus_division_by_zero:
  "fl_sub np (Finite 1) (fl_div np num (Finite 0))
   = (case num of
        Finite a \<Rightarrow> if 0 < a then NegInf else if a < 0 then PosInf else NaN
      | PosInf \<Rightarrow> NegInf
      | NegInf \<Rightarrow> PosInf
      | NaN \<Rightarrow> NaN)"
  by (cases num) simp_all

text \<open>
  C5, amended. For a non-empty target and predictions of the same length the
  computation raises nothing, and no sentinel is substituted for \<open>r2\<close>: whenever the
  denominator \<open>sum((y - mean(y))^2)\<close> evaluates to zero, \<open>r2\<close> is the result of the
  division by zero, NaN for a zero numerator and minus infinity for a positive one,
  and never a number.
\<close>

theorem zero_denominator_r2:
  assumes "length (evaluate expression x) = length y" and "y \<noteq> []"
  shows "\<exists>mse r2.
           plot_prediction_analysis np evaluate expression x y = Inr (mse, r2)
           \<and> (np_sum np (np_square np (centred np y)) = Finite 0 \<longrightarrow>
                (\<forall>v. r2 \<noteq> Finite v)
                \<and> (np_sum np (np_square np (map2 (fl_sub np) y (evaluate expression x))) = Finite 0
                     \<longrightarrow> r2 = NaN)
                \<and> (\<forall>a. 0 < a \<and> np_sum np (np_square np (map2 (fl_sub np) y (evaluate expression x)))
                                = Finite a \<longrightarrow> r2 = NegInf))"
proof -
  let ?num = "np_sum np (np_square np (map2 (fl_sub np) y (evaluate expression x)))"
  let ?den = "np_sum np (np_square np (centred np y))"
  let ?r2 = "fl_sub np (Finite 1) (fl_div np ?num ?den)"
  have z: "?den = Finite 0 \<Longrightarrow> ?r2 = (case ?num of
        Finite a \<Rightarrow> if 0 < a then NegInf else if a < 0 then PosInf else NaN
      | PosInf \<Rightarrow> NegInf | NegInf \<Rightarrow> PosInf | NaN \<Rightarrow> NaN)"
    by (simp only: one_minus_division_by_zero)
  have "?den = Finite 0 \<longrightarrow>
          (\<forall>v. ?r2 \<noteq> Finite v) \<and> (?num = Finite 0 \<longrightarrow> ?r2 = NaN)
          \<and> (\<forall>a. 0 < a \<and> ?num = Finite a \<longrightarrow> ?r2 = NegInf)"
  proof
    assume d: "?den = Finite 0"
    show "(\<forall>v. ?r2 \<noteq> Finite v) \<and> (?num = Finite 0 \<longrightarrow> ?r2 = NaN)
          \<and> (\<forall>a. 0 < a \<and> ?num = Finite a \<longrightarrow> ?r2 = NegInf)"
      unfolding z[OF d] by (cases ?num) auto
  qed
  with plot_prediction_analysis_returns[of evaluate expression x y np, OF assms] show ?thesis by blast
qed

lemmas exact_defs = exact_arithmetic_def example_evaluate_def const_node_def
  plot_prediction_analysis_def np_subtract_def np_mean_def np_square_def centred_def

text \<open>
  C5, as stated, fails: for the constant target \<open>[1, 1]\<close> and the tree that
  predicts \<open>[1, 1]\<close> the returned \<open>r2\<close> is the NaN of \<open>0 / 0\<close>.
\<close>

theorem constant_target_r2_is_nan_counterexample:
  "plot_prediction_analysis exact_arithmetic example_evaluate (const_node 1)
     [[Finite 0], [Finite 0]] [Finite 1, Finite 1]
   = Inr (Finite 0, NaN)"
  by (simp add: exact_defs)

theorem zero_denominator_r2_witness:
  "plot_prediction_analysis exact_arithmetic example_evaluate (const_node 0)
     [[Finite 0], [Finite 0]] [Finite 1, Finite 1]
   = Inr (Finite 1, NegInf)"
proof -
  let ?x = "[[Finite 0], [Finite 0]]"
  let ?y = "[Finite 1, Finite 1]"
  have l: "length (example_evaluate (const_node 0) ?x) = length ?y"
    by (simp add: exact_defs)
  have n: "?y \<noteq> []" by simp
  have den: "np_sum exact_arithmetic (np_square exact_arithmetic (centred exact_arithmetic ?y))
             = Finite 0"
    by (simp add: exact_defs)
  have num: "(0::real) < 2 \<and> np_sum exact_arithmetic (np_square exact_arithmetic
               (map2 (fl_sub exact_arithmetic) ?y (example_evaluate (const_node 0) ?x)))
             = Finite 2"
    by (simp add: exact_defs)
  have mse: "fst (projr (plot_prediction_analysis exact_arithmetic example_evaluate
               (const_node 0) ?x ?y)) = Finite 1"
    by (simp add: exact_defs)
  from zero_denominator_r2[of example_evaluate "const_node 0" ?x ?y exact_arithmetic, OF l n]
  obtain m r2 where
    r: "plot_prediction_analysis exact_arithmetic example_evaluate (const_node 0) ?x ?y
          = Inr (m, r2)"
    and "np_sum exact_arithmetic (np_square exact_arithmetic (centred exact_arithmetic ?y))
           = Finite 0 \<longrightarrow>
         (\<forall>v. r2 \<noteq> Finite v)
         \<and> (np_sum exact_arithmetic (np_square exact_arithmetic
               (map2 (fl_sub exact_arithmetic) ?y (example_evaluate (const_node 0) ?x))) = Finite 0
             \<longrightarrow> r2 = NaN)
         \<and> (\<forall>a. 0 < a \<and> np_sum exact_arithmetic (np_square exact_arithmetic
               (map2 (fl_sub exact_arithmetic) ?y (example_evaluate (const_node 0) ?x))) = Finite a
             \<longrightarrow> r2 = NegInf)"
    by (elim exE conjE)
  with den num have "r2 = NegInf" by blast
  with r mse show ?thesis by simp
qed


lemma residual_perfect_fit:
  assumes "list_all (\<lambda>v. \<exists>r. v = Finite r) y" and "fl_round np 0 = Finite 0"
  shows "map2 (fl_sub np) y y = replicate (length y) (Finite 0)"
  using assms by (induction y) auto

lemma np_square_zeros:
  "fl_round np 0 = Finite 0 \<Longrightarrow>
   np_square np (replicate n (Finite 0)) = replicate n (Finite 0)"
  by (simp add: np_square_def)

text \<open>
  C6, amended. For a non-empty target and predictions of the same length, the
  returned pair is \<open>mse = mean((y - y_pred)^2)\<close> and
  \<open>r2 = 1 - sum((y - y_pred)^2) / sum((y - mean(y))^2)\<close>, as \<^verbatim>\<open>float64\<close> computes
  them. On a perfect fit of a target of numbers the pair is \<open>(0, 1)\<close> when the
  denominator evaluates to a number other than zero (the arithmetic rounds 0 to 0
  and 1 to 1, and its sum of zeros is zero).
\<close>

theorem score_formulas_and_perfect_fit:
  assumes "length (evaluate expression x) = length y" and "y \<noteq> []"
  shows "plot_prediction_analysis np evaluate expression x y
         = Inr (np_mean np (np_square np (map2 (fl_sub np) y (evaluate expression x))),
                fl_sub np (Finite 1)
                  (fl_div np (np_sum np (np_square np (map2 (fl_sub np) y (evaluate expression x))))
                             (np_sum np (np_square np (centred np y)))))
         \<and> (evaluate expression x = y \<and> list_all (\<lambda>v. \<exists>r. v = Finite r) y
              \<and> fl_round np 0 = Finite 0 \<and> fl_round np 1 = Finite 1
              \<and> np_sum np (replicate (length y) (Finite 0)) = Finite 0
              \<and> (\<exists>d. d \<noteq> 0 \<and> np_sum np (np_square np (centred np y)) = Finite d) \<longrightarrow>
              plot_prediction_analysis np evaluate expression x y = Inr (Finite 0, Finite 1))"
proof (intro conjI impI)
  show eq: "plot_prediction_analysis np evaluate expression x y
         = Inr (np_mean np (np_square np (map2 (fl_sub np) y (evaluate expression x))),
                fl_sub np (Finite 1)
                  (fl_div np (np_sum np (np_square np (map2 (fl_sub np) y (evaluate expression x))))
                             (np_sum np (np_square np (centred np y)))))"
    using assms by (rule plot_prediction_analysis_returns)
  assume h: "evaluate expression x = y \<and> list_all (\<lambda>v. \<exists>r. v = Finite r) y
              \<and> fl_round np 0 = Finite 0 \<and> fl_round np 1 = Finite 1
              \<and> np_sum np (replicate (length y) (Finite 0)) = Finite 0
              \<and> (\<exists>d. d \<noteq> 0 \<and> np_sum np (np_square np (centred np y)) = Finite d)"
  then obtain d where d: "d \<noteq> 0" "np_sum np (np_square np (centred np y)) = Finite d"
    by blast
  have r0: "fl_round np 0 = Finite 0" and r1: "fl_round np 1 = Finite 1" using h by simp_all
  have e: "evaluate expression x = y" using h by simp
  have fin: "list_all (\<lambda>v. \<exists>r. v = Finite r) y" using h by simp
  have sz: "np_sum np (replicate (length y) (Finite 0)) = Finite 0" using h by simp
  have res: "map2 (fl_sub np) y (evaluate expression x) = replicate (length y) (Finite 0)"
    unfolding e using fin r0 by (rule residual_perfect_fit)
  have sq: "np_square np (map2 (fl_sub np) y (evaluate expression x))
            = replicate (length y) (Finite 0)"
    unfolding res using r0 by (rule np_square_zeros)
  have num: "np_sum np (np_square np (map2 (fl_sub np) y (evaluate expression x))) = Finite 0"
    unfolding sq by (rule sz)
  have len: "real (length y) \<noteq> 0" using assms(2) by simp
  have mse: "np_mean np (np_square np (map2 (fl_sub np) y (evaluate expression x))) = Finite 0"
    unfolding np_mean_def num using len r0 by (simp add: sq)
  have r2: "fl_sub np (Finite 1)
              (fl_div np (np_sum np (np_square np (map2 (fl_sub np) y (evaluate expression x))))
                         (np_sum np (np_square np (centred np y)))) = Finite 1"
    unfolding num d(2) using d(1) r0 r1 by simp
  show "plot_prediction_analysis np evaluate expression x y = Inr (Finite 0, Finite 1)"
    by (simp only: eq mse r2)
qed

text \<open>
  C6, as stated, fails on a perfect fit of a constant target: the tree \<open>3\<close>
  predicts \<open>[3, 3, 3]\<close> exactly, and \<open>r2\<close> is NaN, not 1.
\<close>

theorem perfect_fit_constant_target_counterexample:
  "example_evaluate (const_node 3) [[Finite 0], [Finite 0], [Finite 0]]
     = [Finite 3, Finite 3, Finite 3]
   \<and> plot_prediction_analysis exact_arithmetic example_evaluate (const_node 3)
       [[Finite 0], [Finite 0], [Finite 0]] [Finite 3, Finite 3, Finite 3]
     = Inr (Finite 0, NaN)"
  by (simp add: exact_defs)

theorem score_formulas_and_perfect_fit_witness:
  "plot_prediction_analysis exact_arithmetic example_evaluate (Node (Some ''x0'') None None None)
     [[Finite 1], [Finite 3]] [Finite 1, Finite 3] = Inr (Finite 0, Finite 1)"
proof -
  let ?t = "Node (Some ''x0'') None None None"
  let ?x = "[[Finite 1], [Finite 3]]"
  let ?y = "[Finite 1, Finite 3]"
  have l: "length (example_evaluate ?t ?x) = length ?y" by (simp add: exact_defs)
  have n: "?y \<noteq> []" by simp
  have d: "(2::real) \<noteq> 0 \<and> np_sum exact_arithmetic
             (np_square exact_arithmetic (centred exact_arithmetic ?y)) = Finite 2"
    by (simp add: exact_defs)
  have h: "example_evaluate ?t ?x = ?y \<and> list_all (\<lambda>v. \<exists>r. v = Finite r) ?y
           \<and> fl_round exact_arithmetic 0 = Finite 0 \<and> fl_round exact_arithmetic 1 = Finite 1
           \<and> np_sum exact_arithmetic (replicate (length ?y) (Finite 0)) = Finite 0
           \<and> (\<exists>d. d \<noteq> 0 \<and> np_sum exact_arithmetic
                 (np_square exact_arithmetic (centred exact_arithmetic ?y)) = Finite d)"
    using d by (auto simp: exact_defs)
  from score_formulas_and_perfect_fit[of example_evaluate ?t ?x ?y exact_arithmetic, OF l n] h
  show ?thesis by blast
qed

end
